theory Spec2Isabelle
  imports Complex_Main "HOL-Library.Word"
begin

unbundle bit_operations_syntax

section \<open>JavaScript values\<close>

text \<open>
  A JavaScript string is a sequence of UTF-16 code units; indexing, \<open>slice\<close>,
  \<open>sort\<close> and \<open>encodeURIComponent\<close> all work on code units. The string literals of
  the source are ASCII and are written through \<open>ascii\<close>.
\<close>

type_synonym codeunit = "16 word"
type_synonym jsstring = "codeunit list"
type_synonym byte = "8 word"

definition ascii :: "string \<Rightarrow> jsstring" where
  "ascii s = map of_char s"

text \<open>The exceptions the modelled functions can throw.\<close>

datatype js_error = TypeError | URIError

text \<open>
  A Number is a double. The safe integers, those of magnitude at most \<open>2^53 - 1\<close>, are
  held by sign and magnitude (the sign of a zero tells \<open>-0\<close> from \<open>+0\<close>); they are the
  Numbers whose \<open>toString\<close> prints every digit, and the only ones lodash takes for a
  length. Any other Number (a fraction, a magnitude from \<open>2^53\<close> on, \<open>NaN\<close>, an
  infinity) is held by the string that \<open>toString()\<close> gives it: the model does not compute
  the shortest digits of a double, and the functions do nothing else with such a Number.
\<close>

datatype jsnumber =
    SafeInteger bool "53 word"
  | OtherNumber jsstring

text \<open>The Number of an integer of magnitude below \<open>2^53\<close>. The functions apply it to
  the results of 32-bit operations, to nibbles, to indices below a length and to the Unix
  seconds of a time value, which are all such integers.\<close>

definition integer_Number :: "int \<Rightarrow> jsnumber" where
  "integer_Number n = SafeInteger (n < 0) (word_of_int \<bar>n\<bar>)"

text \<open>
  The values the functions are applied to: primitives, arrays and plain objects. A plain
  object is the list of its own enumerable string-keyed properties, in enumeration
  order. Functions and class instances are outside the model.
\<close>

datatype jsvalue =
    JUndefined
  | JNull
  | JBoolean bool
  | JNumber jsnumber
  | JString jsstring
  | JArray "jsvalue list"
  | JObject "(jsstring \<times> jsvalue) list"

type_synonym jsobject = "(jsstring \<times> jsvalue) list"

text \<open>\<open>obj[key]\<close>: a missing property reads as \<open>undefined\<close>.\<close>

definition obj_get :: "jsobject \<Rightarrow> jsstring \<Rightarrow> jsvalue" where
  "obj_get obj key = (case map_of obj key of None \<Rightarrow> JUndefined | Some v \<Rightarrow> v)"

text \<open>\<open>obj[key] = v\<close>: an existing property keeps its place, a new one comes last.\<close>

fun obj_set :: "jsobject \<Rightarrow> jsstring \<Rightarrow> jsvalue \<Rightarrow> jsobject" where
  "obj_set [] key v = [(key, v)]"
| "obj_set ((k, w) # rest) key v =
     (if k = key then (k, v) # rest else (k, w) # obj_set rest key v)"

definition Object_keys :: "jsobject \<Rightarrow> jsstring list" where
  "Object_keys obj = map fst obj"

subsection \<open>Strings\<close>

text \<open>\<open>s[n]\<close>: the one-unit string at index \<open>n\<close>, or \<open>undefined\<close> (here \<open>None\<close>)
  when \<open>n\<close> is out of range.\<close>

definition js_index :: "jsstring \<Rightarrow> nat \<Rightarrow> jsstring option" where
  "js_index s n = (if n < length s then Some [s ! n] else None)"

text \<open>\<open>Array.prototype.join\<close> on an array of strings and \<open>undefined\<close>s: an
  \<open>undefined\<close> element contributes the empty string.\<close>

fun js_join :: "jsstring \<Rightarrow> jsstring option list \<Rightarrow> jsstring" where
  "js_join sep [] = []"
| "js_join sep [x] = (case x of None \<Rightarrow> [] | Some s \<Rightarrow> s)"
| "js_join sep (x # y # ys) =
     (case x of None \<Rightarrow> [] | Some s \<Rightarrow> s) @ sep @ js_join sep (y # ys)"

text \<open>\<open>s.slice(a, b)\<close> for non-negative integer arguments.\<close>

definition js_slice :: "jsstring \<Rightarrow> nat \<Rightarrow> nat \<Rightarrow> jsstring" where
  "js_slice s a b = take (b - a) (drop a s)"

text \<open>The comparison of two strings by \<open><\<close>: lexicographic on code units, a proper
  prefix first.\<close>

fun lexicographic_less :: "'a::linorder list \<Rightarrow> 'a list \<Rightarrow> bool" where
  "lexicographic_less [] [] = False"
| "lexicographic_less [] (y # ys) = True"
| "lexicographic_less (x # xs) [] = False"
| "lexicographic_less (x # xs) (y # ys) = (x < y \<or> (x = y \<and> lexicographic_less xs ys))"

definition string_less :: "jsstring \<Rightarrow> jsstring \<Rightarrow> bool" where
  "string_less a b = lexicographic_less a b"

text \<open>\<open>Array.prototype.sort()\<close> with no comparator, on an array of strings: the
  stable sort by \<open>string_less\<close>. The engine's algorithm is its own; the result of a
  stable sort is determined, and insertion sort computes it.\<close>

fun sort_insert :: "jsstring \<Rightarrow> jsstring list \<Rightarrow> jsstring list" where
  "sort_insert x [] = [x]"
| "sort_insert x (y # ys) = (if string_less x y then x # y # ys else y # sort_insert x ys)"

definition js_sort :: "jsstring list \<Rightarrow> jsstring list" where
  "js_sort xs = foldl (\<lambda>acc x. sort_insert x acc) [] xs"

subsection \<open>Numbers to strings\<close>

definition digit_char :: "nat \<Rightarrow> codeunit" where
  "digit_char d = ascii ''0123456789abcdefghijklmnopqrstuvwxyz'' ! d"

function digits_radix :: "nat \<Rightarrow> nat \<Rightarrow> jsstring" where
  "digits_radix r n =
     (if n < r \<or> r < 2 then [digit_char n]
      else digits_radix r (n div r) @ [digit_char (n mod r)])"
  by pat_completeness auto
termination
  by (relation "measure snd") auto

declare digits_radix.simps [simp del]

text \<open>\<open>Number.prototype.toString(radix)\<close>, \<open>2 \<le> radix \<le> 36\<close>. A safe integer
  prints its sign, unless it is a zero, and the digits of its magnitude. Any other Number
  is printed by the functions at radix 10 only (lines 54 and 72), which gives the string
  that holds it.\<close>

fun Number_toString :: "nat \<Rightarrow> jsnumber \<Rightarrow> jsstring" where
  "Number_toString radix (SafeInteger negative m) =
     (if negative \<and> m \<noteq> 0 then ascii ''-'' else []) @ digits_radix radix (unat m)"
| "Number_toString radix (OtherNumber decimal) = decimal"

text \<open>
  \<open>value.toString()\<close>. On \<open>undefined\<close> and \<open>null\<close> the property access throws a
  TypeError. An array joins its elements with a comma, \<open>undefined\<close> and \<open>null\<close>
  elements as the empty string. A plain object answers with
  \<open>Object.prototype.toString\<close> unless an own property named \<open>toString\<close> shadows it,
  which in this model of data values is not callable.
\<close>

fun js_toString :: "jsvalue \<Rightarrow> js_error + jsstring"
  and array_join :: "jsvalue list \<Rightarrow> js_error + jsstring" where
  "js_toString JUndefined = Inl TypeError"
| "js_toString JNull = Inl TypeError"
| "js_toString (JBoolean b) = Inr (if b then ascii ''true'' else ascii ''false'')"
| "js_toString (JNumber n) = Inr (Number_toString 10 n)"
| "js_toString (JString s) = Inr s"
| "js_toString (JArray xs) = array_join xs"
| "js_toString (JObject ps) =
     (if ascii ''toString'' \<in> set (map fst ps) then Inl TypeError
      else Inr (ascii ''[object Object]''))"
| "array_join [] = Inr []"
| "array_join (x # xs) =
     (case (if x = JUndefined \<or> x = JNull then Inr [] else js_toString x) of
        Inl e \<Rightarrow> Inl e
      | Inr s \<Rightarrow>
          (if xs = [] then Inr s
           else (case array_join xs of Inl e \<Rightarrow> Inl e | Inr t \<Rightarrow> Inr (s @ ascii '','' @ t))))"


subsection \<open>UTF-16, UTF-8 and \<open>encodeURIComponent\<close>\<close>

definition is_high_surrogate :: "codeunit \<Rightarrow> bool" where
  "is_high_surrogate c = (0xD800 \<le> c \<and> c \<le> 0xDBFF)"

definition is_low_surrogate :: "codeunit \<Rightarrow> bool" where
  "is_low_surrogate c = (0xDC00 \<le> c \<and> c \<le> 0xDFFF)"

definition surrogate_pair :: "codeunit \<Rightarrow> codeunit \<Rightarrow> nat" where
  "surrogate_pair hi lo = (unat hi - 0xD800) * 0x400 + (unat lo - 0xDC00) + 0x10000"

text \<open>The UTF-8 octets of a code point.\<close>

definition utf8_octets :: "nat \<Rightarrow> byte list" where
  "utf8_octets cp =
     (if cp < 0x80 then [of_nat cp]
      else if cp < 0x800 then [of_nat (0xC0 + cp div 0x40), of_nat (0x80 + cp mod 0x40)]
      else if cp < 0x10000 then
        [of_nat (0xE0 + cp div 0x1000), of_nat (0x80 + cp div 0x40 mod 0x40),
         of_nat (0x80 + cp mod 0x40)]
      else
        [of_nat (0xF0 + cp div 0x40000), of_nat (0x80 + cp div 0x1000 mod 0x40),
         of_nat (0x80 + cp div 0x40 mod 0x40), of_nat (0x80 + cp mod 0x40)])"

text \<open>The characters \<open>encodeURIComponent\<close> leaves as they are: the ASCII letters and
  digits and \<open>- _ . ! ~ * ' ( )\<close>.\<close>

definition uri_unreserved :: "codeunit \<Rightarrow> bool" where
  "uri_unreserved c =
     (c \<in> set (ascii ''ABCDEFGHIJKLMNOPQRSTUVWXYZabcdefghijklmnopqrstuvwxyz0123456789-_.!~*()'')
      \<or> c = 0x27)"

definition upper_hex :: "nat \<Rightarrow> codeunit" where
  "upper_hex d = ascii ''0123456789ABCDEF'' ! d"

definition percent_octet :: "byte \<Rightarrow> jsstring" where
  "percent_octet b = [0x25, upper_hex (unat b div 16), upper_hex (unat b mod 16)]"

text \<open>ECMAScript's \<open>Encode\<close> with the unreserved set of \<open>encodeURIComponent\<close>: an
  unpaired surrogate throws a URIError.\<close>

fun encodeURIComponent :: "jsstring \<Rightarrow> js_error + jsstring" where
  "encodeURIComponent [] = Inr []"
| "encodeURIComponent (c # cs) =
     (if uri_unreserved c then
        (case encodeURIComponent cs of Inl e \<Rightarrow> Inl e | Inr r \<Rightarrow> Inr (c # r))
      else if is_low_surrogate c then Inl URIError
      else if is_high_surrogate c then
        (case cs of
           [] \<Rightarrow> Inl URIError
         | d # ds \<Rightarrow>
             (if is_low_surrogate d then
                (case encodeURIComponent ds of
                   Inl e \<Rightarrow> Inl e
                 | Inr r \<Rightarrow>
                     Inr (concat (map percent_octet (utf8_octets (surrogate_pair c d))) @ r))
              else Inl URIError))
      else
        (case encodeURIComponent cs of
           Inl e \<Rightarrow> Inl e
         | Inr r \<Rightarrow> Inr (concat (map percent_octet (utf8_octets (unat c))) @ r)))"

section \<open>CryptoJS: MD5 and its hexadecimal rendering\<close>

text \<open>\<open>CryptoJS.enc.Utf8.parse\<close>, which the hasher applies to a string message: the
  UTF-8 octets of the string. It goes through \<open>encodeURIComponent\<close>, so an unpaired
  surrogate throws a URIError.\<close>

fun Utf8_parse :: "jsstring \<Rightarrow> js_error + byte list" where
  "Utf8_parse [] = Inr []"
| "Utf8_parse (c # cs) =
     (if is_low_surrogate c then Inl URIError
      else if is_high_surrogate c then
        (case cs of
           [] \<Rightarrow> Inl URIError
         | d # ds \<Rightarrow>
             (if is_low_surrogate d then
                (case Utf8_parse ds of
                   Inl e \<Rightarrow> Inl e
                 | Inr r \<Rightarrow> Inr (utf8_octets (surrogate_pair c d) @ r))
              else Inl URIError))
      else
        (case Utf8_parse cs of
           Inl e \<Rightarrow> Inl e
         | Inr r \<Rightarrow> Inr (utf8_octets (unat c) @ r)))"

text \<open>MD5 (RFC 1321) on octets. A digest is modelled by its sixteen octets, in the
  order in which CryptoJS renders them.\<close>

type_synonym u32 = "32 word"
type_synonym md5_state = "u32 \<times> u32 \<times> u32 \<times> u32"

definition md5_K :: "u32 list" where
  "md5_K =
    [0xd76aa478, 0xe8c7b756, 0x242070db, 0xc1bdceee, 0xf57c0faf, 0x4787c62a, 0xa8304613, 0xfd469501,
     0x698098d8, 0x8b44f7af, 0xffff5bb1, 0x895cd7be, 0x6b901122, 0xfd987193, 0xa679438e, 0x49b40821,
     0xf61e2562, 0xc040b340, 0x265e5a51, 0xe9b6c7aa, 0xd62f105d, 0x02441453, 0xd8a1e681, 0xe7d3fbc8,
     0x21e1cde6, 0xc33707d6, 0xf4d50d87, 0x455a14ed, 0xa9e3e905, 0xfcefa3f8, 0x676f02d9, 0x8d2a4c8a,
     0xfffa3942, 0x8771f681, 0x6d9d6122, 0xfde5380c, 0xa4beea44, 0x4bdecfa9, 0xf6bb4b60, 0xbebfbc70,
     0x289b7ec6, 0xeaa127fa, 0xd4ef3085, 0x04881d05, 0xd9d4d039, 0xe6db99e5, 0x1fa27cf8, 0xc4ac5665,
     0xf4292244, 0x432aff97, 0xab9423a7, 0xfc93a039, 0x655b59c3, 0x8f0ccc92, 0xffeff47d, 0x85845dd1,
     0x6fa87e4f, 0xfe2ce6e0, 0xa3014314, 0x4e0811a1, 0xf7537e82, 0xbd3af235, 0x2ad7d2bb, 0xeb86d391]"

definition md5_S :: "nat list" where
  "md5_S =
    [7, 12, 17, 22, 7, 12, 17, 22, 7, 12, 17, 22, 7, 12, 17, 22,
     5, 9, 14, 20, 5, 9, 14, 20, 5, 9, 14, 20, 5, 9, 14, 20,
     4, 11, 16, 23, 4, 11, 16, 23, 4, 11, 16, 23, 4, 11, 16, 23,
     6, 10, 15, 21, 6, 10, 15, 21, 6, 10, 15, 21, 6, 10, 15, 21]"

definition rotl32 :: "u32 \<Rightarrow> nat \<Rightarrow> u32" where
  "rotl32 x n = push_bit n x OR drop_bit (32 - n) x"

definition md5_step :: "u32 list \<Rightarrow> md5_state \<Rightarrow> nat \<Rightarrow> md5_state" where
  "md5_step M st i =
     (case st of (a, b, c, d) \<Rightarrow>
       (let (f, g) =
          (if i < 16 then ((b AND c) OR (NOT b AND d), i)
           else if i < 32 then ((d AND b) OR (NOT d AND c), (5 * i + 1) mod 16)
           else if i < 48 then (b XOR c XOR d, (3 * i + 5) mod 16)
           else (c XOR (b OR NOT d), (7 * i) mod 16))
        in (d, b + rotl32 (f + a + md5_K ! i + M ! g) (md5_S ! i), b, c)))"

definition md5_block :: "md5_state \<Rightarrow> u32 list \<Rightarrow> md5_state" where
  "md5_block st M =
     (case st of (a0, b0, c0, d0) \<Rightarrow>
       (case foldl (md5_step M) st [0..<64] of
          (a, b, c, d) \<Rightarrow> (a0 + a, b0 + b, c0 + c, d0 + d)))"

definition le32 :: "byte list \<Rightarrow> u32" where
  "le32 bs = foldr (\<lambda>b w. push_bit 8 w OR ucast b) bs 0"

definition le32_octets :: "u32 \<Rightarrow> byte list" where
  "le32_octets w = map (\<lambda>i. ucast (drop_bit (8 * i) w)) [0..<4]"

fun chunks :: "nat \<Rightarrow> 'a list \<Rightarrow> 'a list list" where
  "chunks n [] = []"
| "chunks n (x # xs) =
     (if n = 0 then [] else take n (x # xs) # chunks n (drop n (x # xs)))"

definition md5_pad :: "byte list \<Rightarrow> byte list" where
  "md5_pad m =
     (let l = length m
      in m @ [0x80] @ replicate ((119 - l mod 64) mod 64) 0 @
         map (\<lambda>i. ucast (drop_bit (8 * i) (of_nat (8 * l) :: 64 word))) [0..<8])"

definition md5 :: "byte list \<Rightarrow> byte list" where
  "md5 m =
     (case foldl md5_block (0x67452301, 0xefcdab89, 0x98badcfe, 0x10325476)
             (map (\<lambda>blk. map le32 (chunks 4 blk)) (chunks 64 (md5_pad m))) of
        (a, b, c, d) \<Rightarrow> concat (map le32_octets [a, b, c, d]))"

text \<open>\<open>CryptoJS.MD5(message)\<close> on a string message.\<close>

definition CryptoJS_MD5 :: "jsstring \<Rightarrow> js_error + byte list" where
  "CryptoJS_MD5 message =
     (case Utf8_parse message of Inl e \<Rightarrow> Inl e | Inr octets \<Rightarrow> Inr (md5 octets))"

text \<open>\<open>CryptoJS.enc.Hex.stringify\<close>, the default of \<open>toString()\<close> on a digest: per
  octet \<open>(bite >>> 4).toString(16)\<close> and \<open>(bite & 0x0f).toString(16)\<close>.\<close>

definition Hex_stringify :: "byte list \<Rightarrow> jsstring" where
  "Hex_stringify octets =
     concat (map (\<lambda>bite. Number_toString 16 (integer_Number (uint (drop_bit 4 bite))) @
                          Number_toString 16 (integer_Number (uint (bite AND 0x0f)))) octets)"

section \<open>wbiSign\<close>

text \<open>Modelled from the spec: \<open>ts\<close> is imported from \<open>@/library/luxon\<close>, which is
  not among the sources; the spec has it return the current Unix time in whole seconds.
  The argument is the host clock, a time value in milliseconds since the epoch (of
  magnitude at most \<open>8.64 * 10^15\<close>, so that the seconds are a safe integer).\<close>

definition ts :: "int \<Rightarrow> int" where
  "ts clock_ms = clock_ms div 1000"

definition salt_table :: "nat list" where
  "salt_table =
    [46, 47, 18, 2, 53, 8, 23, 32, 15, 50, 10, 31, 58, 3, 45, 35, 27, 43, 5, 49, 33, 9, 42, 19, 29,
     28, 14, 39, 12, 38, 41, 13, 37, 48, 7, 16, 24, 55, 40, 61, 26, 17, 0, 1, 60, 51, 30, 4, 22, 25,
     54, 21, 56, 59, 6, 63, 57, 62, 11, 36, 20, 34, 44, 52]"

text \<open>Lines 37--46: the salt.\<close>

definition wbi_salt :: "jsstring \<Rightarrow> jsstring \<Rightarrow> jsstring" where
  "wbi_salt imgKey subKey =
    (let imgAndSubKey = imgKey @ subKey
     in js_slice (js_join [] (map (\<lambda>n. js_index imgAndSubKey n) salt_table)) 0 32)"

text \<open>\<open>value.replace(/[!'()*]/g, '')\<close>.\<close>

definition strip_chars :: "jsstring \<Rightarrow> jsstring" where
  "strip_chars s = filter (\<lambda>c. c \<notin> {0x21, 0x27, 0x28, 0x29, 0x2A}) s"

text \<open>The callback of \<open>map\<close> in lines 52--57. The template literal evaluates
  \<open>encodeURIComponent(key)\<close> before \<open>encodeURIComponent(value)\<close>.\<close>

definition wbi_pair :: "jsobject \<Rightarrow> jsstring \<Rightarrow> js_error + jsstring" where
  "wbi_pair params key =
     (case js_toString (obj_get params key) of
        Inl e \<Rightarrow> Inl e
      | Inr s \<Rightarrow>
          (let v = strip_chars s
           in (case encodeURIComponent key of
                 Inl e \<Rightarrow> Inl e
               | Inr ek \<Rightarrow>
                   (case encodeURIComponent v of
                      Inl e \<Rightarrow> Inl e
                    | Inr ev \<Rightarrow> Inr (ek @ ascii ''='' @ ev)))))"

text \<open>\<open>Array.prototype.map\<close> with a callback that can throw: the first exception ends
  the loop.\<close>

fun map_throwing :: "('a \<Rightarrow> js_error + 'b) \<Rightarrow> 'a list \<Rightarrow> js_error + 'b list" where
  "map_throwing f [] = Inr []"
| "map_throwing f (x # xs) =
     (case f x of
        Inl e \<Rightarrow> Inl e
      | Inr y \<Rightarrow> (case map_throwing f xs of Inl e \<Rightarrow> Inl e | Inr ys \<Rightarrow> Inr (y # ys)))"

text \<open>Lines 50--58: the query.\<close>

definition wbi_query :: "jsobject \<Rightarrow> js_error + jsstring" where
  "wbi_query params =
     (case map_throwing (wbi_pair params) (js_sort (Object_keys params)) of
        Inl e \<Rightarrow> Inl e
      | Inr pairs \<Rightarrow> Inr (js_join (ascii ''&'') (map Some pairs)))"

text \<open>\<open>wbiSign\<close>. The result is the caller's \<open>params\<close> object after the call, and
  either the returned string or the exception thrown.\<close>

definition wbiSign :: "int \<Rightarrow> jsobject \<Rightarrow> jsstring \<Rightarrow> jsstring \<Rightarrow> jsobject \<times> (js_error + jsstring)" where
  "wbiSign clock_ms params imgKey subKey =
    (let salt = wbi_salt imgKey subKey;
         params' = obj_set params (ascii ''wts'') (JNumber (integer_Number (ts clock_ms)))
     in (params',
         (case wbi_query params' of
            Inl e \<Rightarrow> Inl e
          | Inr query \<Rightarrow>
              (case CryptoJS_MD5 (query @ salt) of
                 Inl e \<Rightarrow> Inl e
               | Inr wbiSign \<Rightarrow> Inr (query @ ascii ''&w_rid='' @ Hex_stringify wbiSign)))))"




section \<open>uuid\<close>

text \<open>\<open>x | 0\<close> applies \<open>ToInt32\<close>: truncation towards zero, then reduction modulo
  \<open>2^32\<close> into the signed range.\<close>

definition ToInt32 :: "real \<Rightarrow> int" where
  "ToInt32 x =
     (let t = (if x < 0 then - \<lfloor>- x\<rfloor> else \<lfloor>x\<rfloor>); m = t mod 2 ^ 32
      in if 2 ^ 31 \<le> m then m - 2 ^ 32 else m)"

text \<open>The callback of \<open>replace\<close> in lines 11--14; \<open>random\<close> is what its call of
  \<open>Math.random()\<close> returns.\<close>

definition uuid_replacer :: "codeunit \<Rightarrow> real \<Rightarrow> jsstring" where
  "uuid_replacer char random =
     (let randomInt = ToInt32 (16 * random) OR 0
      in Number_toString 16
           (integer_Number
              (if of_char CHR ''x'' = char then randomInt else (3 AND randomInt) OR 8)))"

text \<open>\<open>template.replace(/[xy]/g, callback)\<close>: the callback runs once per \<open>x\<close> or
  \<open>y\<close>, from left to right; \<open>rnd k\<close> is the result of the \<open>k\<close>-th call of
  \<open>Math.random()\<close>, counted from the \<open>n\<close>-th.\<close>

fun replace_xy :: "jsstring \<Rightarrow> (codeunit \<Rightarrow> real \<Rightarrow> jsstring) \<Rightarrow> (nat \<Rightarrow> real) \<Rightarrow> nat \<Rightarrow> jsstring" where
  "replace_xy [] f rnd n = []"
| "replace_xy (c # cs) f rnd n =
     (if c = of_char CHR ''x'' \<or> c = of_char CHR ''y''
      then f c (rnd n) @ replace_xy cs f rnd (Suc n)
      else c # replace_xy cs f rnd n)"

definition uuid :: "(nat \<Rightarrow> real) \<Rightarrow> jsstring" where
  "uuid rnd = replace_xy (ascii ''xxxxxxxx-xxxx-4xxx-yxxx-xxxxxxxxxxxx'') uuid_replacer rnd 0"

text \<open>The pattern \<open>[0-9a-f]{8}-[0-9a-f]{4}-4[0-9a-f]{3}-[89ab][0-9a-f]{3}-[0-9a-f]{12}\<close>:
  one character class per position of the string.\<close>

definition lower_hex :: "codeunit set" where
  "lower_hex = set (ascii ''0123456789abcdef'')"

definition uuid_pattern :: "codeunit set list" where
  "uuid_pattern =
     replicate 8 lower_hex @ [set (ascii ''-'')] @
     replicate 4 lower_hex @ [set (ascii ''-'')] @
     [set (ascii ''4'')] @ replicate 3 lower_hex @ [set (ascii ''-'')] @
     [set (ascii ''89ab'')] @ replicate 3 lower_hex @ [set (ascii ''-'')] @
     replicate 12 lower_hex"

definition matches_pattern :: "jsstring \<Rightarrow> codeunit set list \<Rightarrow> bool" where
  "matches_pattern s pat = list_all2 (\<lambda>c cls. c \<in> cls) s pat"

section \<open>lodash\<close>

definition isPlainObject :: "jsvalue \<Rightarrow> bool" where
  "isPlainObject v = (case v of JObject ps \<Rightarrow> True | _ \<Rightarrow> False)"

definition isEmpty :: "jsvalue \<Rightarrow> bool" where
  "isEmpty v =
     (case v of
        JObject ps \<Rightarrow> ps = []
      | JArray xs \<Rightarrow> xs = []
      | JString s \<Rightarrow> s = []
      | _ \<Rightarrow> True)"

definition MAX_SAFE_INTEGER :: int where
  "MAX_SAFE_INTEGER = 9007199254740991"

text \<open>\<open>isLength(value)\<close>: \<open>typeof value == 'number' && value > -1 && value % 1 == 0
  && value <= MAX_SAFE_INTEGER\<close>. A Number that is not a safe integer fails one of the
  last three tests.\<close>

definition isLength :: "jsvalue \<Rightarrow> bool" where
  "isLength v =
     (case v of
        JNumber (SafeInteger negative m) \<Rightarrow>
          (\<not> negative \<or> m = 0) \<and> uint m \<le> MAX_SAFE_INTEGER
      | _ \<Rightarrow> False)"

text \<open>\<open>isArrayLike\<close> on an object that is not a function: its \<open>length\<close> is a valid
  length.\<close>

definition isArrayLike :: "jsobject \<Rightarrow> bool" where
  "isArrayLike obj = isLength (obj_get obj (ascii ''length''))"

text \<open>A loop whose body can throw: the first exception ends it.\<close>

fun each_throwing :: "('a \<Rightarrow> 's \<Rightarrow> js_error + 's) \<Rightarrow> 'a list \<Rightarrow> 's \<Rightarrow> js_error + 's" where
  "each_throwing f [] s = Inr s"
| "each_throwing f (x # xs) s =
     (case f x s of Inl e \<Rightarrow> Inl e | Inr s' \<Rightarrow> each_throwing f xs s')"

text \<open>
  \<open>_.forEach(collection, iteratee)\<close> on an object, with an iteratee that never returns
  \<open>false\<close>. An array-like object (one with a valid \<open>length\<close>) is iterated like an
  array, over the indices below its length; any other object over its own enumerable
  properties. The iteratee gets the value and the key (for an index, the model passes its
  decimal string).
\<close>

definition lodash_forEach :: "jsobject \<Rightarrow> (jsvalue \<Rightarrow> jsstring \<Rightarrow> 's \<Rightarrow> js_error + 's) \<Rightarrow> 's \<Rightarrow> js_error + 's" where
  "lodash_forEach collection iteratee s =
     (if isArrayLike collection then
        (case obj_get collection (ascii ''length'') of
           JNumber (SafeInteger negative len) \<Rightarrow>
             each_throwing
               (\<lambda>index.
                  iteratee
                    (obj_get collection (Number_toString 10 (integer_Number (int index))))
                    (Number_toString 10 (integer_Number (int index))))
               [0..<unat len] s
         | _ \<Rightarrow> Inr s)
      else each_throwing (\<lambda>(key, v). iteratee v key) collection s)"

section \<open>packFormData\<close>

text \<open>A \<open>FormData\<close> is the list of its entries. \<open>append\<close> takes its arguments as
  USVStrings: an unpaired surrogate becomes U+FFFD.\<close>

type_synonym formdata = "(jsstring \<times> jsstring) list"

fun to_USVString :: "jsstring \<Rightarrow> jsstring" where
  "to_USVString [] = []"
| "to_USVString [c] = (if is_high_surrogate c \<or> is_low_surrogate c then [0xFFFD] else [c])"
| "to_USVString (c # d # ds) =
     (if is_high_surrogate c \<and> is_low_surrogate d then c # d # to_USVString ds
      else if is_high_surrogate c \<or> is_low_surrogate c then 0xFFFD # to_USVString (d # ds)
      else c # to_USVString (d # ds))"

definition FormData_append :: "formdata \<Rightarrow> jsstring \<Rightarrow> jsstring \<Rightarrow> formdata" where
  "FormData_append formData name v = formData @ [(to_USVString name, to_USVString v)]"

definition packFormData :: "jsobject \<Rightarrow> js_error + formdata" where
  "packFormData json =
     lodash_forEach json
       (\<lambda>v key formData.
          case js_toString v of
            Inl e \<Rightarrow> Inl e
          | Inr s \<Rightarrow> Inr (FormData_append formData key s))
       []"

section \<open>deepestIterate\<close>

definition own_properties :: "jsvalue \<Rightarrow> jsobject" where
  "own_properties v = (case v of JObject ps \<Rightarrow> ps | _ \<Rightarrow> [])"

text \<open>
  \<open>deepestIterate(obj, fn, path)\<close> on a plain object. The callback \<open>fn\<close> is the
  caller's; the model returns the calls made to it, in order, each with its two
  arguments. \<open>_.forOwn\<close> walks the own enumerable properties; its iteratee never returns
  \<open>false\<close>. An absent \<open>path\<close> is \<open>None\<close>; the test \<open>path ?\<close> is false on
  \<open>undefined\<close> and on the empty string.
\<close>

function deepestIterate :: "jsobject \<Rightarrow> jsstring option \<Rightarrow> (jsvalue \<times> jsstring) list" where
  "deepestIterate [] path = []"
| "deepestIterate ((key, v) # rest) path =
     (let newPath =
        (case path of
           None \<Rightarrow> key
         | Some p \<Rightarrow> if p = [] then key else p @ ascii ''.'' @ key)
      in (if isPlainObject v \<and> \<not> isEmpty v
          then deepestIterate (own_properties v) (Some newPath)
          else [(v, newPath)])
         @ deepestIterate rest path)"
  by pat_completeness auto
termination
proof (relation "measure (\<lambda>(obj, path). size_list (size_prod (\<lambda>k. 0) size) obj)")
  show "wf (measure (\<lambda>(obj, path). size_list (size_prod (\<lambda>k. 0) size) obj))"
    by simp
next
  fix key v rest path newPath
  assume "isPlainObject v \<and> \<not> isEmpty v"
  then obtain ps where "v = JObject ps"
    by (cases v) (simp_all add: isPlainObject_def)
  then show "((own_properties v, Some newPath), (key, v) # rest, path)
      \<in> measure (\<lambda>(obj, path). size_list (size_prod (\<lambda>k. 0) size) obj)"
    by (simp add: own_properties_def)
next
  fix key v rest path newPath
  show "((rest, path), (key, v) # rest, path)
      \<in> measure (\<lambda>(obj, path). size_list (size_prod (\<lambda>k. 0) size) obj)"
    by simp
qed

declare deepestIterate.simps [simp del]

text \<open>
  The walk as the spec words it, for comparison: the leaves of a plain-object tree (every
  value that is not a non-empty plain object), each with the keys on the way to it from
  the root, and the dotted path of a list of keys.
\<close>

fun leaves :: "jsobject \<Rightarrow> (jsvalue \<times> jsstring list) list" where
  "leaves [] = []"
| "leaves ((key, v) # rest) =
     (case v of
        JObject (p # ps) \<Rightarrow> map (\<lambda>(leaf, ks). (leaf, key # ks)) (leaves (p # ps))
      | _ \<Rightarrow> [(v, [key])])
     @ leaves rest"

definition dotted :: "jsstring list \<Rightarrow> jsstring" where
  "dotted ks = js_join (ascii ''.'') (map Some ks)"

section \<open>waitForMoment\<close>

text \<open>
  What the function reads of the host: whether \<open>document.head\<close> and \<open>document.body\<close>
  exist, and \<open>document.readyState\<close>. \<open>document.documentElement\<close> has the type
  \<open>HTMLElement\<close> and is taken to exist.
\<close>

datatype ready_state = Loading | Interactive | Complete

record document =
  has_head :: bool
  has_body :: bool
  readyState :: ready_state

datatype promise_state = Pending | Fulfilled | Rejected jsstring

text \<open>What a call can subscribe to: a MutationObserver on the child list of
  \<open>document.documentElement\<close> whose callback looks for the head or for the body, a
  \<open>DOMContentLoaded\<close> listener on the document, a \<open>load\<close> listener on the window.\<close>

datatype subscription = HeadObserver | BodyObserver | DOMContentLoadedListener | LoadListener

text \<open>The state of one call: its promise, the subscription it holds attached (a call
  makes at most one), and how often \<open>observer.disconnect()\<close> has run.\<close>

record waiter =
  promise :: promise_state
  attached :: "subscription option"
  disconnects :: nat

text \<open>\<open>resolve()\<close> settles a pending promise and leaves a settled one as it is.\<close>

definition resolve :: "waiter \<Rightarrow> waiter" where
  "resolve w = (if promise w = Pending then w\<lparr>promise := Fulfilled\<rparr> else w)"

definition waitForMoment :: "jsvalue \<Rightarrow> document \<Rightarrow> waiter" where
  "waitForMoment moment doc =
     (let new_promise = \<lparr>promise = Pending, attached = None, disconnects = 0\<rparr>
      in if moment = JString (ascii ''document-start'') then resolve new_promise
         else if moment = JString (ascii ''document-head'') then
           (if has_head doc then resolve new_promise
            else new_promise\<lparr>attached := Some HeadObserver\<rparr>)
         else if moment = JString (ascii ''document-body'') then
           (if has_body doc then resolve new_promise
            else new_promise\<lparr>attached := Some BodyObserver\<rparr>)
         else if moment = JString (ascii ''document-end'') then
           (if readyState doc \<noteq> Loading then resolve new_promise
            else new_promise\<lparr>attached := Some DOMContentLoadedListener\<rparr>)
         else if moment = JString (ascii ''window-load'') then
           (if readyState doc = Complete then resolve new_promise
            else new_promise\<lparr>attached := Some LoadListener\<rparr>)
         else new_promise\<lparr>promise := Rejected (ascii ''Illegal moment'')\<rparr>)"

text \<open>What the host delivers: a batch of child-list mutations of the document element
  (to the observers), \<open>DOMContentLoaded\<close> (to the document's listeners) and \<open>load\<close>
  (to the window's).\<close>

datatype event = Mutation | DOMContentLoaded | Load

text \<open>The callbacks of lines 126--131, 142--147, 158 and 168, run on an event with the
  document as it is then. A callback runs only while its subscription is attached.\<close>

definition on_event :: "event \<times> document \<Rightarrow> waiter \<Rightarrow> waiter" where
  "on_event ed w =
     (case ed of (e, doc) \<Rightarrow>
       (case attached w of
          None \<Rightarrow> w
        | Some HeadObserver \<Rightarrow>
            (if e = Mutation \<and> has_head doc
             then resolve (w\<lparr>attached := None, disconnects := Suc (disconnects w)\<rparr>)
             else w)
        | Some BodyObserver \<Rightarrow>
            (if e = Mutation \<and> has_body doc
             then resolve (w\<lparr>attached := None, disconnects := Suc (disconnects w)\<rparr>)
             else w)
        | Some DOMContentLoadedListener \<Rightarrow> (if e = DOMContentLoaded then resolve w else w)
        | Some LoadListener \<Rightarrow> (if e = Load then resolve w else w)))"

definition run :: "(event \<times> document) list \<Rightarrow> waiter \<Rightarrow> waiter" where
  "run events w = fold on_event events w"


section \<open>The salt of wbiSign\<close>

lemma js_join_empty_sep:
  "js_join [] xs = concat (map (\<lambda>x. case x of None \<Rightarrow> [] | Some s \<Rightarrow> s) xs)"
  by (induction "[] :: jsstring" xs rule: js_join.induct) simp_all

lemma js_join_js_index:
  "js_join [] (map (js_index s) ns) = map (\<lambda>n. s ! n) (filter (\<lambda>n. n < length s) ns)"
  by (induction ns) (simp_all add: js_join_empty_sep js_index_def)

lemma salt_table_sorted: "sort salt_table = [0..<64]"
  by code_simp

lemma salt_table_set: "set salt_table = {0..<64}"
proof -
  have "set salt_table = set (sort salt_table)" by simp
  also have "\<dots> = {0..<64}" unfolding salt_table_sorted by simp
  finally show ?thesis .
qed

lemma salt_table_distinct: "distinct salt_table"
proof -
  have "distinct (sort salt_table)" unfolding salt_table_sorted by simp
  then show ?thesis by simp
qed

lemma salt_table_length: "length salt_table = 64"
  by (simp add: salt_table_def)

lemma salt_table_in_range: "length (filter (\<lambda>n. n < l) salt_table) = min 64 l"
proof -
  have "length (filter (\<lambda>n. n < l) salt_table) = card {n \<in> set salt_table. n < l}"
    using salt_table_distinct by (simp add: distinct_length_filter Int_def conj_commute)
  also have "{n \<in> set salt_table. n < l} = {0..<min 64 l}"
    unfolding salt_table_set by auto
  finally show ?thesis by simp
qed

lemma wbi_salt_filter:
  "wbi_salt imgKey subKey =
     take 32 (map (\<lambda>n. (imgKey @ subKey) ! n)
                (filter (\<lambda>n. n < length (imgKey @ subKey)) salt_table))"
  by (simp add: wbi_salt_def js_slice_def js_join_js_index Let_def del: length_append)

text \<open>
  Claim C1. The salt of \<open>wbiSign\<close> is read off \<open>imgKey + subKey\<close> through the
  fixed table of 64 indices, in table order, and cut to its first 32 characters. There is
  no bounds check: an index at or beyond the combined length contributes no character, so
  the salt has \<open>min 32 L\<close> characters for a combined length \<open>L\<close>; from length 64 on it
  is the characters at the first 32 table entries.
\<close>

theorem wbi_salt_permutes:
  "salt_table =
     [46, 47, 18, 2, 53, 8, 23, 32, 15, 50, 10, 31, 58, 3, 45, 35, 27, 43, 5, 49, 33, 9, 42, 19,
      29, 28, 14, 39, 12, 38, 41, 13, 37, 48, 7, 16, 24, 55, 40, 61, 26, 17, 0, 1, 60, 51, 30, 4,
      22, 25, 54, 21, 56, 59, 6, 63, 57, 62, 11, 36, 20, 34, 44, 52]
   \<and> wbi_salt imgKey subKey =
       take 32 (map (\<lambda>n. (imgKey @ subKey) ! n)
                  (filter (\<lambda>n. n < length (imgKey @ subKey)) salt_table))
   \<and> length (wbi_salt imgKey subKey) = min 32 (length (imgKey @ subKey))
   \<and> (64 \<le> length (imgKey @ subKey) \<longrightarrow>
        wbi_salt imgKey subKey = map (\<lambda>n. (imgKey @ subKey) ! n) (take 32 salt_table))"
proof (intro conjI impI)
  show "salt_table =
     [46, 47, 18, 2, 53, 8, 23, 32, 15, 50, 10, 31, 58, 3, 45, 35, 27, 43, 5, 49, 33, 9, 42, 19,
      29, 28, 14, 39, 12, 38, 41, 13, 37, 48, 7, 16, 24, 55, 40, 61, 26, 17, 0, 1, 60, 51, 30, 4,
      22, 25, 54, 21, 56, 59, 6, 63, 57, 62, 11, 36, 20, 34, 44, 52]"
    by (fact salt_table_def)
  show "wbi_salt imgKey subKey =
       take 32 (map (\<lambda>n. (imgKey @ subKey) ! n)
                  (filter (\<lambda>n. n < length (imgKey @ subKey)) salt_table))"
    by (fact wbi_salt_filter)
  show "length (wbi_salt imgKey subKey) = min 32 (length (imgKey @ subKey))"
    unfolding wbi_salt_filter by (simp add: salt_table_in_range del: length_append)
next
  assume long: "64 \<le> length (imgKey @ subKey)"
  have "\<forall>n \<in> set salt_table. n < length (imgKey @ subKey)"
    using long unfolding salt_table_set by auto
  then have "filter (\<lambda>n. n < length (imgKey @ subKey)) salt_table = salt_table"
    by (simp del: length_append)
  then show "wbi_salt imgKey subKey = map (\<lambda>n. (imgKey @ subKey) ! n) (take 32 salt_table)"
    unfolding wbi_salt_filter by (simp add: take_map del: length_append)
qed

theorem wbi_salt_permutes_witness:
  "64 \<le> length (ascii ''7cd084941338484aae1ad9425b84077c'' @ ascii ''4932caff0ff746eaa6f01bf08b70ac45'')
   \<and> wbi_salt (ascii ''7cd084941338484aae1ad9425b84077c'') (ascii ''4932caff0ff746eaa6f01bf08b70ac45'')
       = ascii ''ea1db124af3c7062474693fa704f4ff8''
   \<and> wbi_salt (ascii ''abc'') (ascii ''de'') = ascii ''cdabe''"
  using wbi_salt_permutes [of "ascii ''7cd084941338484aae1ad9425b84077c''" "ascii ''4932caff0ff746eaa6f01bf08b70ac45''"]
    wbi_salt_permutes [of "ascii ''abc''" "ascii ''de''"]
  by (simp add: ascii_def salt_table_def)


section \<open>The format of uuid\<close>

lemma random_int_range:
  assumes "0 \<le> r" "r < 1"
  shows "ToInt32 (16 * r) OR 0 = \<lfloor>16 * r\<rfloor>" and "0 \<le> \<lfloor>16 * r\<rfloor>" and "\<lfloor>16 * r\<rfloor> < 16"
proof -
  show lo: "0 \<le> \<lfloor>16 * r\<rfloor>" using assms by simp
  show hi: "\<lfloor>16 * r\<rfloor> < 16" using assms by (simp add: floor_less_iff)
  have "\<lfloor>16 * r\<rfloor> mod 2 ^ 32 = \<lfloor>16 * r\<rfloor>" using lo hi by simp
  then show "ToInt32 (16 * r) OR 0 = \<lfloor>16 * r\<rfloor>"
    using assms lo hi by (simp add: ToInt32_def Let_def)
qed

lemma nibble_cases:
  assumes "0 \<le> n" "n < 16"
  shows "n \<in> {0, 1, 2, 3, 4, 5, 6, 7, 8, 9, 10, 11, 12, 13, 14, 15 :: int}"
  using assms by simp presburger

lemma digits_radix_nibble:
  "n < 16 \<Longrightarrow> digits_radix 16 n = [digit_char n]"
  by (simp add: digits_radix.simps)

lemma integer_Number_magnitude:
  "0 \<le> n \<Longrightarrow> n < 2 ^ 53 \<Longrightarrow> integer_Number n = SafeInteger False (word_of_int n)
     \<and> unat (word_of_int n :: 53 word) = nat n"
  by (simp add: integer_Number_def unat_eq_nat_uint take_bit_int_eq_self unsigned_of_int)

lemma Number_toString_nibble:
  "0 \<le> n \<Longrightarrow> n < 16 \<Longrightarrow> Number_toString 16 (integer_Number n) = [digit_char (nat n)]"
  using integer_Number_magnitude [of n] by (simp add: digits_radix_nibble)

lemma digit_char_lower_hex:
  assumes "0 \<le> n" "n < 16"
  shows "digit_char (nat n) \<in> lower_hex"
  using nibble_cases [OF assms]
  by (auto simp: digit_char_def lower_hex_def ascii_def)

lemma variant_nibble:
  assumes "0 \<le> n" "n < 16"
  shows "(3 AND n) OR 8 \<in> {8, 9, 10, 11 :: int}"
  using nibble_cases [OF assms] by auto


lemma uuid_replacer_x:
  assumes "0 \<le> r" "r < 1"
  shows "uuid_replacer (of_char CHR ''x'') r = [digit_char (nat \<lfloor>16 * r\<rfloor>)]"
  using random_int_range [OF assms]
  by (simp add: uuid_replacer_def Let_def Number_toString_nibble)

lemma uuid_replacer_y:
  assumes "0 \<le> r" "r < 1"
  shows "uuid_replacer (of_char CHR ''y'') r = [digit_char (nat ((3 AND \<lfloor>16 * r\<rfloor>) OR 8))]"
proof -
  have v: "(3 AND \<lfloor>16 * r\<rfloor>) OR 8 \<in> {8, 9, 10, 11 :: int}"
    using random_int_range(2,3) [OF assms] by (rule variant_nibble)
  then have "0 \<le> (3 AND \<lfloor>16 * r\<rfloor>) OR 8" "(3 AND \<lfloor>16 * r\<rfloor>) OR 8 < 16"
    by auto
  then show ?thesis
    using random_int_range(1) [OF assms]
    by (simp add: uuid_replacer_def Let_def Number_toString_nibble)
qed

lemma replace_xy_run:
  "replace_xy (replicate m (of_char CHR ''x'') @ rest) f rnd n =
     concat (map (\<lambda>k. f (of_char CHR ''x'') (rnd k)) [n..<n + m]) @ replace_xy rest f rnd (n + m)"
proof (induction m arbitrary: n)
  case 0
  then show ?case by simp
next
  case (Suc m)
  have "[n..<n + Suc m] = n # [Suc n..<Suc n + m]"
    by (simp add: upt_conv_Cons)
  then show ?case
    using Suc.IH [of "Suc n"] by simp
qed

lemma replace_xy_keep:
  "c \<noteq> of_char CHR ''x'' \<Longrightarrow> c \<noteq> of_char CHR ''y'' \<Longrightarrow>
     replace_xy (c # rest) f rnd n = c # replace_xy rest f rnd n"
  by simp

lemma replace_xy_y:
  "replace_xy (of_char CHR ''y'' # rest) f rnd n =
     f (of_char CHR ''y'') (rnd n) @ replace_xy rest f rnd (Suc n)"
  by simp

lemma uuid_template:
  "ascii ''xxxxxxxx-xxxx-4xxx-yxxx-xxxxxxxxxxxx'' =
     replicate 8 (of_char CHR ''x'') @ of_char CHR ''-'' #
     replicate 4 (of_char CHR ''x'') @ of_char CHR ''-'' # of_char CHR ''4'' #
     replicate 3 (of_char CHR ''x'') @ of_char CHR ''-'' # of_char CHR ''y'' #
     replicate 3 (of_char CHR ''x'') @ of_char CHR ''-'' #
     replicate 12 (of_char CHR ''x'') @ []"
  by (simp add: ascii_def eval_nat_numeral)

lemma uuid_unfold:
  "uuid rnd =
     concat (map (\<lambda>k. uuid_replacer (of_char CHR ''x'') (rnd k)) [0..<8]) @ ascii ''-'' @
     concat (map (\<lambda>k. uuid_replacer (of_char CHR ''x'') (rnd k)) [8..<12]) @ ascii ''-4'' @
     concat (map (\<lambda>k. uuid_replacer (of_char CHR ''x'') (rnd k)) [12..<15]) @ ascii ''-'' @
     uuid_replacer (of_char CHR ''y'') (rnd 15) @
     concat (map (\<lambda>k. uuid_replacer (of_char CHR ''x'') (rnd k)) [16..<19]) @ ascii ''-'' @
     concat (map (\<lambda>k. uuid_replacer (of_char CHR ''x'') (rnd k)) [19..<31])"
proof -
  have k1: "(of_char CHR ''-'' :: codeunit) \<noteq> of_char CHR ''x''"
    "(of_char CHR ''-'' :: codeunit) \<noteq> of_char CHR ''y''"
    "(of_char CHR ''4'' :: codeunit) \<noteq> of_char CHR ''x''"
    "(of_char CHR ''4'' :: codeunit) \<noteq> of_char CHR ''y''"
    by simp_all
  show ?thesis
    unfolding uuid_def uuid_template
    by (simp only: replace_xy_run replace_xy_keep [OF k1(1,2)] replace_xy_keep [OF k1(3,4)]
          replace_xy_y replace_xy.simps(1))
       (simp add: ascii_def)
qed


lemma matches_pattern_append:
  "matches_pattern s p \<Longrightarrow> matches_pattern t q \<Longrightarrow> matches_pattern (s @ t) (p @ q)"
  by (simp add: matches_pattern_def list_all2_appendI)

lemma matches_pattern_run:
  "(\<And>k. h k \<in> C) \<Longrightarrow> length ks = m \<Longrightarrow> matches_pattern (map h ks) (replicate m C)"
  by (simp add: matches_pattern_def list_all2_conv_all_nth)

lemma matches_pattern_single:
  "c \<in> C \<Longrightarrow> matches_pattern [c] [C]"
  by (simp add: matches_pattern_def)

lemma concat_singletons: "concat (map (\<lambda>k. [g k]) ks) = map g ks"
  by (induction ks) simp_all

text \<open>
  Claim C9. Whatever \<open>Math.random\<close> returns (values in \<open>[0, 1)\<close>), the string of
  \<open>uuid\<close> matches
  \<open>[0-9a-f]{8}-[0-9a-f]{4}-4[0-9a-f]{3}-[89ab][0-9a-f]{3}-[0-9a-f]{12}\<close>: every \<open>x\<close>
  becomes the hexadecimal digit of \<open>\<lfloor>16 * random\<rfloor>\<close> of its own call, the version
  character is the constant \<open>4\<close>, and the \<open>y\<close> becomes the digit of the sixteenth
  call's integer masked with 3 and or-ed with 8, which is 8, 9, 10 or 11.
\<close>

theorem uuid_matches_pattern:
  assumes "\<forall>k. 0 \<le> rnd k \<and> rnd k < 1"
  shows "matches_pattern (uuid rnd) uuid_pattern
    \<and> uuid rnd =
        map (\<lambda>k. digit_char (nat \<lfloor>16 * rnd k\<rfloor>)) [0..<8] @ ascii ''-'' @
        map (\<lambda>k. digit_char (nat \<lfloor>16 * rnd k\<rfloor>)) [8..<12] @ ascii ''-4'' @
        map (\<lambda>k. digit_char (nat \<lfloor>16 * rnd k\<rfloor>)) [12..<15] @ ascii ''-'' @
        [digit_char (nat ((3 AND \<lfloor>16 * rnd 15\<rfloor>) OR 8))] @
        map (\<lambda>k. digit_char (nat \<lfloor>16 * rnd k\<rfloor>)) [16..<19] @ ascii ''-'' @
        map (\<lambda>k. digit_char (nat \<lfloor>16 * rnd k\<rfloor>)) [19..<31]
    \<and> (3 AND \<lfloor>16 * rnd 15\<rfloor>) OR 8 \<in> {8, 9, 10, 11}"
proof -
  have r: "0 \<le> rnd k" "rnd k < 1" for k
    using assms by simp_all
  have x: "uuid_replacer (of_char CHR ''x'') (rnd k) = [digit_char (nat \<lfloor>16 * rnd k\<rfloor>)]" for k
    by (rule uuid_replacer_x [OF r])
  have y: "uuid_replacer (of_char CHR ''y'') (rnd 15)
      = [digit_char (nat ((3 AND \<lfloor>16 * rnd 15\<rfloor>) OR 8))]"
    by (rule uuid_replacer_y [OF r])
  have shape: "uuid rnd =
        map (\<lambda>k. digit_char (nat \<lfloor>16 * rnd k\<rfloor>)) [0..<8] @ ascii ''-'' @
        map (\<lambda>k. digit_char (nat \<lfloor>16 * rnd k\<rfloor>)) [8..<12] @ ascii ''-4'' @
        map (\<lambda>k. digit_char (nat \<lfloor>16 * rnd k\<rfloor>)) [12..<15] @ ascii ''-'' @
        [digit_char (nat ((3 AND \<lfloor>16 * rnd 15\<rfloor>) OR 8))] @
        map (\<lambda>k. digit_char (nat \<lfloor>16 * rnd k\<rfloor>)) [16..<19] @ ascii ''-'' @
        map (\<lambda>k. digit_char (nat \<lfloor>16 * rnd k\<rfloor>)) [19..<31]"
    unfolding uuid_unfold x y concat_singletons ..
  have hex: "digit_char (nat \<lfloor>16 * rnd k\<rfloor>) \<in> lower_hex" for k
    using random_int_range(2,3) [OF r] by (rule digit_char_lower_hex)
  have variant: "(3 AND \<lfloor>16 * rnd 15\<rfloor>) OR 8 \<in> {8, 9, 10, 11 :: int}"
    using random_int_range(2,3) [OF r] by (rule variant_nibble)
  then have vchar: "digit_char (nat ((3 AND \<lfloor>16 * rnd 15\<rfloor>) OR 8)) \<in> set (ascii ''89ab'')"
    by (auto simp: digit_char_def ascii_def)
  have dash: "matches_pattern (ascii ''-'') [set (ascii ''-'')]"
    by (simp add: matches_pattern_def ascii_def)
  have four: "matches_pattern (ascii ''4'') [set (ascii ''4'')]"
    by (simp add: matches_pattern_def ascii_def)
  have split: "ascii ''-4'' = ascii ''-'' @ ascii ''4''"
    by (simp add: ascii_def)
  have "matches_pattern (uuid rnd) uuid_pattern"
    unfolding shape uuid_pattern_def split append_assoc
    by (intro matches_pattern_append matches_pattern_run matches_pattern_single
          hex vchar dash four) simp_all
  with shape variant show ?thesis by blast
qed


theorem uuid_matches_pattern_witness:
  "(\<forall>k. 0 \<le> real (k mod 16) / 16 \<and> real (k mod 16) / 16 < 1)
   \<and> uuid (\<lambda>k. real (k mod 16) / 16) = ascii ''01234567-89ab-4cde-b012-3456789abcde''
   \<and> matches_pattern (ascii ''01234567-89ab-4cde-b012-3456789abcde'') uuid_pattern"
proof -
  have h: "\<forall>k. 0 \<le> real (k mod 16) / 16 \<and> real (k mod 16) / 16 < 1"
    by simp
  have e: "uuid (\<lambda>k. real (k mod 16) / 16) = ascii ''01234567-89ab-4cde-b012-3456789abcde''"
    using uuid_matches_pattern [OF h]
    by (simp add: upt_rec digit_char_def ascii_def)
  have "matches_pattern (uuid (\<lambda>k. real (k mod 16) / 16)) uuid_pattern"
    using uuid_matches_pattern [OF h] by blast
  then have m: "matches_pattern (ascii ''01234567-89ab-4cde-b012-3456789abcde'') uuid_pattern"
    by (simp only: e)
  from h e m show ?thesis by blast
qed


section \<open>The promise of waitForMoment\<close>

lemma waitForMoment_start:
  "waitForMoment (JString (ascii ''document-start'')) doc =
     \<lparr>promise = Fulfilled, attached = None, disconnects = 0\<rparr>"
  by (simp add: waitForMoment_def resolve_def)

lemma waitForMoment_head:
  "waitForMoment (JString (ascii ''document-head'')) doc =
     (if has_head doc then \<lparr>promise = Fulfilled, attached = None, disconnects = 0\<rparr>
      else \<lparr>promise = Pending, attached = Some HeadObserver, disconnects = 0\<rparr>)"
  by (simp add: waitForMoment_def resolve_def ascii_def)

lemma waitForMoment_body:
  "waitForMoment (JString (ascii ''document-body'')) doc =
     (if has_body doc then \<lparr>promise = Fulfilled, attached = None, disconnects = 0\<rparr>
      else \<lparr>promise = Pending, attached = Some BodyObserver, disconnects = 0\<rparr>)"
  by (simp add: waitForMoment_def resolve_def ascii_def)

lemma waitForMoment_end:
  "waitForMoment (JString (ascii ''document-end'')) doc =
     (if readyState doc \<noteq> Loading then \<lparr>promise = Fulfilled, attached = None, disconnects = 0\<rparr>
      else \<lparr>promise = Pending, attached = Some DOMContentLoadedListener, disconnects = 0\<rparr>)"
  by (simp add: waitForMoment_def resolve_def ascii_def)

lemma waitForMoment_load:
  "waitForMoment (JString (ascii ''window-load'')) doc =
     (if readyState doc = Complete then \<lparr>promise = Fulfilled, attached = None, disconnects = 0\<rparr>
      else \<lparr>promise = Pending, attached = Some LoadListener, disconnects = 0\<rparr>)"
  by (simp add: waitForMoment_def resolve_def ascii_def)

lemma waitForMoment_illegal:
  assumes "moment \<notin> {JString (ascii ''document-start''), JString (ascii ''document-head''),
      JString (ascii ''document-body''), JString (ascii ''document-end''),
      JString (ascii ''window-load'')}"
  shows "waitForMoment moment doc =
     \<lparr>promise = Rejected (ascii ''Illegal moment''), attached = None, disconnects = 0\<rparr>"
  using assms by (simp add: waitForMoment_def)

lemma resolve_simps:
  "promise (resolve w) = (if promise w = Pending then Fulfilled else promise w)"
  "attached (resolve w) = attached w"
  "disconnects (resolve w) = disconnects w"
  by (simp_all add: resolve_def)

lemma resolve_idem: "resolve (resolve w) = resolve w"
  by (simp add: resolve_def)

lemma run_Nil: "run [] w = w"
  by (simp add: run_def)

lemma run_Cons: "run (ed # events) w = run events (on_event ed w)"
  by (simp add: run_def)

lemma run_append: "run (es @ fs) w = run fs (run es w)"
  by (simp add: run_def)

lemma run_detached: "attached w = None \<Longrightarrow> run events w = w"
  by (induction events) (simp_all add: run_Nil run_Cons on_event_def split: prod.splits)

lemma run_listener:
  assumes "attached w = Some DOMContentLoadedListener \<and> ev = DOMContentLoaded
         \<or> attached w = Some LoadListener \<and> ev = Load"
  shows "run events w = (if ev \<in> fst ` set events then resolve w else w)"
  using assms
proof (induction events arbitrary: w)
  case Nil
  then show ?case by (simp add: run_Nil)
next
  case (Cons ed events)
  obtain e d where ed: "ed = (e, d)" by (cases ed)
  show ?case
  proof (cases "e = ev")
    case True
    with Cons.prems ed have step: "on_event ed w = resolve w"
      by (auto simp: on_event_def)
    have "run events (resolve w) = (if ev \<in> fst ` set events then resolve (resolve w) else resolve w)"
      using Cons.prems by (intro Cons.IH) (simp add: resolve_simps)
    with step True ed show ?thesis
      by (simp add: run_Cons resolve_idem)
  next
    case False
    with Cons.prems ed have step: "on_event ed w = w"
      by (auto simp: on_event_def)
    with False ed Cons.IH [OF Cons.prems] show ?thesis
      by (simp add: run_Cons)
  qed
qed

lemma run_observer:
  assumes "attached w = Some HeadObserver \<and> present = has_head
         \<or> attached w = Some BodyObserver \<and> present = has_body"
  shows "run events w =
     (if \<exists>d. (Mutation, d) \<in> set events \<and> present d
      then resolve (w\<lparr>attached := None, disconnects := Suc (disconnects w)\<rparr>)
      else w)"
  using assms
proof (induction events arbitrary: w)
  case Nil
  then show ?case by (simp add: run_Nil)
next
  case (Cons ed events)
  obtain e d where ed: "ed = (e, d)" by (cases ed)
  show ?case
  proof (cases "e = Mutation \<and> present d")
    case True
    with Cons.prems ed have step:
      "on_event ed w = resolve (w\<lparr>attached := None, disconnects := Suc (disconnects w)\<rparr>)"
      by (auto simp: on_event_def)
    have "run events (on_event ed w) = on_event ed w"
      unfolding step by (rule run_detached) (simp add: resolve_simps)
    with step True ed show ?thesis
      by (auto simp: run_Cons)
  next
    case False
    with Cons.prems ed have step: "on_event ed w = w"
      by (auto simp: on_event_def)
    with False ed Cons.IH [OF Cons.prems] show ?thesis
      by (auto simp: run_Cons)
  qed
qed

lemma run_start:
  "run events (waitForMoment (JString (ascii ''document-start'')) doc) =
     \<lparr>promise = Fulfilled, attached = None, disconnects = 0\<rparr>"
  unfolding waitForMoment_start by (rule run_detached) simp

lemma run_illegal:
  assumes "moment \<notin> {JString (ascii ''document-start''), JString (ascii ''document-head''),
      JString (ascii ''document-body''), JString (ascii ''document-end''),
      JString (ascii ''window-load'')}"
  shows "run events (waitForMoment moment doc) =
     \<lparr>promise = Rejected (ascii ''Illegal moment''), attached = None, disconnects = 0\<rparr>"
  unfolding waitForMoment_illegal [OF assms] by (rule run_detached) simp

lemma run_head:
  "run events (waitForMoment (JString (ascii ''document-head'')) doc) =
     (if has_head doc then \<lparr>promise = Fulfilled, attached = None, disconnects = 0\<rparr>
      else if \<exists>d. (Mutation, d) \<in> set events \<and> has_head d
      then \<lparr>promise = Fulfilled, attached = None, disconnects = 1\<rparr>
      else \<lparr>promise = Pending, attached = Some HeadObserver, disconnects = 0\<rparr>)"
proof (cases "has_head doc")
  case True
  then show ?thesis
    unfolding waitForMoment_head by (simp add: run_detached)
next
  case False
  have "run events \<lparr>promise = Pending, attached = Some HeadObserver, disconnects = 0\<rparr> =
     (if \<exists>d. (Mutation, d) \<in> set events \<and> has_head d
      then resolve (\<lparr>promise = Pending, attached = Some HeadObserver, disconnects = 0\<rparr>
             \<lparr>attached := None, disconnects := Suc (disconnects
               \<lparr>promise = Pending, attached = Some HeadObserver, disconnects = 0\<rparr>)\<rparr>)
      else \<lparr>promise = Pending, attached = Some HeadObserver, disconnects = 0\<rparr>)"
    by (rule run_observer) simp
  with False show ?thesis
    unfolding waitForMoment_head by (simp add: resolve_def)
qed


lemma run_body:
  "run events (waitForMoment (JString (ascii ''document-body'')) doc) =
     (if has_body doc then \<lparr>promise = Fulfilled, attached = None, disconnects = 0\<rparr>
      else if \<exists>d. (Mutation, d) \<in> set events \<and> has_body d
      then \<lparr>promise = Fulfilled, attached = None, disconnects = 1\<rparr>
      else \<lparr>promise = Pending, attached = Some BodyObserver, disconnects = 0\<rparr>)"
proof (cases "has_body doc")
  case True
  then show ?thesis
    unfolding waitForMoment_body by (simp add: run_detached)
next
  case False
  have "run events \<lparr>promise = Pending, attached = Some BodyObserver, disconnects = 0\<rparr> =
     (if \<exists>d. (Mutation, d) \<in> set events \<and> has_body d
      then resolve (\<lparr>promise = Pending, attached = Some BodyObserver, disconnects = 0\<rparr>
             \<lparr>attached := None, disconnects := Suc (disconnects
               \<lparr>promise = Pending, attached = Some BodyObserver, disconnects = 0\<rparr>)\<rparr>)
      else \<lparr>promise = Pending, attached = Some BodyObserver, disconnects = 0\<rparr>)"
    by (rule run_observer) simp
  with False show ?thesis
    unfolding waitForMoment_body by (simp add: resolve_def)
qed

lemma run_end:
  "run events (waitForMoment (JString (ascii ''document-end'')) doc) =
     (if readyState doc \<noteq> Loading then \<lparr>promise = Fulfilled, attached = None, disconnects = 0\<rparr>
      else if DOMContentLoaded \<in> fst ` set events
      then \<lparr>promise = Fulfilled, attached = Some DOMContentLoadedListener, disconnects = 0\<rparr>
      else \<lparr>promise = Pending, attached = Some DOMContentLoadedListener, disconnects = 0\<rparr>)"
proof (cases "readyState doc \<noteq> Loading")
  case True
  then show ?thesis
    unfolding waitForMoment_end by (simp add: run_detached)
next
  case False
  have "run events \<lparr>promise = Pending, attached = Some DOMContentLoadedListener, disconnects = 0\<rparr> =
     (if DOMContentLoaded \<in> fst ` set events
      then resolve \<lparr>promise = Pending, attached = Some DOMContentLoadedListener, disconnects = 0\<rparr>
      else \<lparr>promise = Pending, attached = Some DOMContentLoadedListener, disconnects = 0\<rparr>)"
    by (rule run_listener) simp
  with False show ?thesis
    unfolding waitForMoment_end by (simp add: resolve_def)
qed

lemma run_load:
  "run events (waitForMoment (JString (ascii ''window-load'')) doc) =
     (if readyState doc = Complete then \<lparr>promise = Fulfilled, attached = None, disconnects = 0\<rparr>
      else if Load \<in> fst ` set events
      then \<lparr>promise = Fulfilled, attached = Some LoadListener, disconnects = 0\<rparr>
      else \<lparr>promise = Pending, attached = Some LoadListener, disconnects = 0\<rparr>)"
proof (cases "readyState doc = Complete")
  case True
  then show ?thesis
    unfolding waitForMoment_load by (simp add: run_detached)
next
  case False
  have "run events \<lparr>promise = Pending, attached = Some LoadListener, disconnects = 0\<rparr> =
     (if Load \<in> fst ` set events
      then resolve \<lparr>promise = Pending, attached = Some LoadListener, disconnects = 0\<rparr>
      else \<lparr>promise = Pending, attached = Some LoadListener, disconnects = 0\<rparr>)"
    by (rule run_listener) simp
  with False show ?thesis
    unfolding waitForMoment_load by (simp add: resolve_def)
qed

lemma legal_never_rejected:
  assumes "moment \<in> {JString (ascii ''document-start''), JString (ascii ''document-head''),
      JString (ascii ''document-body''), JString (ascii ''document-end''),
      JString (ascii ''window-load'')}"
  shows "promise (run events (waitForMoment moment doc)) \<noteq> Rejected reason"
proof -
  from assms consider
      "moment = JString (ascii ''document-start'')"
    | "moment = JString (ascii ''document-head'')"
    | "moment = JString (ascii ''document-body'')"
    | "moment = JString (ascii ''document-end'')"
    | "moment = JString (ascii ''window-load'')"
    by blast
  then show ?thesis
  proof cases
    case 1 then show ?thesis by (simp only: run_start) simp
  next
    case 2 then show ?thesis by (simp only: run_head) simp
  next
    case 3 then show ?thesis by (simp only: run_body) simp
  next
    case 4 then show ?thesis by (simp only: run_end) simp
  next
    case 5 then show ?thesis by (simp only: run_load) simp
  qed
qed


text \<open>
  Claim C5. An input that is none of the five moments gets a promise rejected with the
  string \<open>Illegal moment\<close>, at the call and whatever the host delivers afterwards; and a
  promise of \<open>waitForMoment\<close> is rejected in no other case and with no other reason.
\<close>

theorem illegal_moment_only_rejection:
  "(moment \<notin> {JString (ascii ''document-start''), JString (ascii ''document-head''),
       JString (ascii ''document-body''), JString (ascii ''document-end''),
       JString (ascii ''window-load'')} \<longrightarrow>
      promise (waitForMoment moment doc) = Rejected (ascii ''Illegal moment'')
      \<and> promise (run events (waitForMoment moment doc)) = Rejected (ascii ''Illegal moment''))
   \<and> (promise (run events (waitForMoment moment doc)) = Rejected reason \<longrightarrow>
        reason = ascii ''Illegal moment''
        \<and> moment \<notin> {JString (ascii ''document-start''), JString (ascii ''document-head''),
             JString (ascii ''document-body''), JString (ascii ''document-end''),
             JString (ascii ''window-load'')})"
proof (cases "moment \<in> {JString (ascii ''document-start''), JString (ascii ''document-head''),
       JString (ascii ''document-body''), JString (ascii ''document-end''),
       JString (ascii ''window-load'')}")
  case True
  from legal_never_rejected [OF True] True show ?thesis
    by blast
next
  case False
  have "promise (waitForMoment moment doc) = Rejected (ascii ''Illegal moment'')"
    by (simp only: waitForMoment_illegal [OF False]) simp
  moreover have "promise (run events (waitForMoment moment doc)) = Rejected (ascii ''Illegal moment'')"
    by (simp only: run_illegal [OF False]) simp
  ultimately show ?thesis
    using False by (simp only: simp_thms promise_state.inject) simp
qed


theorem illegal_moment_only_rejection_witness:
  "JString (ascii ''nonsense'') \<notin> {JString (ascii ''document-start''),
       JString (ascii ''document-head''), JString (ascii ''document-body''),
       JString (ascii ''document-end''), JString (ascii ''window-load'')}
   \<and> promise (waitForMoment (JString (ascii ''nonsense''))
        \<lparr>has_head = True, has_body = False, readyState = Loading\<rparr>)
      = Rejected (ascii ''Illegal moment'')
   \<and> promise (run [(Load, \<lparr>has_head = True, has_body = True, readyState = Complete\<rparr>)]
        (waitForMoment (JString (ascii ''nonsense''))
           \<lparr>has_head = True, has_body = False, readyState = Loading\<rparr>))
      = Rejected (ascii ''Illegal moment'')"
proof -
  have ne: "JString (ascii ''nonsense'') \<notin> {JString (ascii ''document-start''),
       JString (ascii ''document-head''), JString (ascii ''document-body''),
       JString (ascii ''document-end''), JString (ascii ''window-load'')}"
    by (simp add: ascii_def)
  from ne illegal_moment_only_rejection [of "JString (ascii ''nonsense'')"
      "\<lparr>has_head = True, has_body = False, readyState = Loading\<rparr>"
      "[(Load, \<lparr>has_head = True, has_body = True, readyState = Complete\<rparr>)]"]
  show ?thesis by blast
qed


text \<open>
  Claim C6. \<open>waitForMoment("document-end")\<close> resolves at once, with no listener
  registered, exactly when the ready-state is not \<open>loading\<close>; otherwise it registers one
  \<open>DOMContentLoaded\<close> listener and its promise is pending until the first such event
  and fulfilled from then on. \<open>waitForMoment("window-load")\<close> does the same with the
  ready-state \<open>complete\<close> and the \<open>load\<close> event.
\<close>

theorem document_end_and_window_load:
  "(promise (waitForMoment (JString (ascii ''document-end'')) doc) = Fulfilled
      \<longleftrightarrow> readyState doc \<noteq> Loading)
   \<and> (readyState doc \<noteq> Loading \<longrightarrow>
        attached (waitForMoment (JString (ascii ''document-end'')) doc) = None)
   \<and> (readyState doc = Loading \<longrightarrow>
        attached (waitForMoment (JString (ascii ''document-end'')) doc)
          = Some DOMContentLoadedListener
        \<and> promise (run events (waitForMoment (JString (ascii ''document-end'')) doc))
          = (if DOMContentLoaded \<in> fst ` set events then Fulfilled else Pending))
   \<and> (promise (waitForMoment (JString (ascii ''window-load'')) doc) = Fulfilled
      \<longleftrightarrow> readyState doc = Complete)
   \<and> (readyState doc = Complete \<longrightarrow>
        attached (waitForMoment (JString (ascii ''window-load'')) doc) = None)
   \<and> (readyState doc \<noteq> Complete \<longrightarrow>
        attached (waitForMoment (JString (ascii ''window-load'')) doc) = Some LoadListener
        \<and> promise (run events (waitForMoment (JString (ascii ''window-load'')) doc))
          = (if Load \<in> fst ` set events then Fulfilled else Pending))"
  by (simp only: run_end run_load) (simp add: waitForMoment_end waitForMoment_load)

theorem document_end_and_window_load_witness:
  "readyState \<lparr>has_head = True, has_body = True, readyState = Complete\<rparr> \<noteq> Loading
   \<and> promise (waitForMoment (JString (ascii ''document-end''))
        \<lparr>has_head = True, has_body = True, readyState = Complete\<rparr>) = Fulfilled
   \<and> attached (waitForMoment (JString (ascii ''document-end''))
        \<lparr>has_head = True, has_body = True, readyState = Complete\<rparr>) = None
   \<and> readyState \<lparr>has_head = True, has_body = True, readyState = Interactive\<rparr> \<noteq> Complete
   \<and> promise (run [(DOMContentLoaded, \<lparr>has_head = True, has_body = True, readyState = Interactive\<rparr>),
                    (Load, \<lparr>has_head = True, has_body = True, readyState = Complete\<rparr>)]
        (waitForMoment (JString (ascii ''window-load''))
           \<lparr>has_head = True, has_body = True, readyState = Interactive\<rparr>)) = Fulfilled
   \<and> promise (run [(DOMContentLoaded, \<lparr>has_head = True, has_body = True, readyState = Interactive\<rparr>)]
        (waitForMoment (JString (ascii ''window-load''))
           \<lparr>has_head = True, has_body = True, readyState = Interactive\<rparr>)) = Pending"
  using document_end_and_window_load
      [of "\<lparr>has_head = True, has_body = True, readyState = Complete\<rparr>" "[]"]
    document_end_and_window_load
      [of "\<lparr>has_head = True, has_body = True, readyState = Interactive\<rparr>"
          "[(DOMContentLoaded, \<lparr>has_head = True, has_body = True, readyState = Interactive\<rparr>),
            (Load, \<lparr>has_head = True, has_body = True, readyState = Complete\<rparr>)]"]
    document_end_and_window_load
      [of "\<lparr>has_head = True, has_body = True, readyState = Interactive\<rparr>"
          "[(DOMContentLoaded, \<lparr>has_head = True, has_body = True, readyState = Interactive\<rparr>)]"]
  by simp

text \<open>
  Claim C7, as stated, fails: the listener that \<open>waitForMoment("document-end")\<close>
  registers is still attached after \<open>DOMContentLoaded\<close> has fired and the promise is
  fulfilled.
\<close>

theorem listener_stays_attached:
  "promise (run [(DOMContentLoaded, \<lparr>has_head = True, has_body = True, readyState = Interactive\<rparr>)]
      (waitForMoment (JString (ascii ''document-end''))
         \<lparr>has_head = False, has_body = False, readyState = Loading\<rparr>)) = Fulfilled
   \<and> attached (run [(DOMContentLoaded, \<lparr>has_head = True, has_body = True, readyState = Interactive\<rparr>)]
      (waitForMoment (JString (ascii ''document-end''))
         \<lparr>has_head = False, has_body = False, readyState = Loading\<rparr>))
     = Some DOMContentLoadedListener"
  by (simp only: run_end) simp

text \<open>
  Claim C7, amended. A call for \<open>document-head\<close> or \<open>document-body\<close> that finds the
  element missing attaches one observer. After any sequence of deliveries the observer has
  been disconnected once if a mutation batch has arrived with the element present, and
  not at all otherwise; it is attached exactly until then, and the promise is fulfilled
  exactly from then on. A call that finds the element present attaches nothing. The
  listeners of \<open>document-end\<close> and \<open>window-load\<close> are never detached: what the call
  attached stays attached whatever is delivered.
\<close>

theorem observer_disconnected_once:
  "(moment = JString (ascii ''document-head'') \<and> present = has_head
      \<or> moment = JString (ascii ''document-body'') \<and> present = has_body \<longrightarrow>
      (present doc \<longrightarrow>
         attached (run events (waitForMoment moment doc)) = None
         \<and> disconnects (run events (waitForMoment moment doc)) = 0)
      \<and> (\<not> present doc \<longrightarrow>
         attached (waitForMoment moment doc) \<noteq> None
         \<and> disconnects (run events (waitForMoment moment doc))
             = (if \<exists>d. (Mutation, d) \<in> set events \<and> present d then 1 else 0)
         \<and> (attached (run events (waitForMoment moment doc)) = None
             \<longleftrightarrow> (\<exists>d. (Mutation, d) \<in> set events \<and> present d))
         \<and> promise (run events (waitForMoment moment doc))
             = (if \<exists>d. (Mutation, d) \<in> set events \<and> present d then Fulfilled else Pending)))
   \<and> (moment = JString (ascii ''document-end'') \<or> moment = JString (ascii ''window-load'') \<longrightarrow>
        attached (run events (waitForMoment moment doc)) = attached (waitForMoment moment doc)
        \<and> disconnects (run events (waitForMoment moment doc)) = 0)"
proof -
  have listeners: "attached (run events (waitForMoment moment doc)) = attached (waitForMoment moment doc)
        \<and> disconnects (run events (waitForMoment moment doc)) = 0"
    if "moment = JString (ascii ''document-end'') \<or> moment = JString (ascii ''window-load'')"
    using that
    by (elim disjE; simp only: run_end run_load)
       (simp_all add: waitForMoment_end waitForMoment_load)
  have there: "attached (run events (waitForMoment moment doc)) = None
         \<and> disconnects (run events (waitForMoment moment doc)) = 0"
    if "moment = JString (ascii ''document-head'') \<and> present = has_head
      \<or> moment = JString (ascii ''document-body'') \<and> present = has_body" "present doc"
    using that
    by (elim disjE conjE; simp only: run_head run_body) simp_all
  have missing: "attached (waitForMoment moment doc) \<noteq> None
         \<and> disconnects (run events (waitForMoment moment doc))
             = (if \<exists>d. (Mutation, d) \<in> set events \<and> present d then 1 else 0)
         \<and> (attached (run events (waitForMoment moment doc)) = None
             \<longleftrightarrow> (\<exists>d. (Mutation, d) \<in> set events \<and> present d))
         \<and> promise (run events (waitForMoment moment doc))
             = (if \<exists>d. (Mutation, d) \<in> set events \<and> present d then Fulfilled else Pending)"
    if "moment = JString (ascii ''document-head'') \<and> present = has_head
      \<or> moment = JString (ascii ''document-body'') \<and> present = has_body" "\<not> present doc"
    using that
    by (elim disjE conjE; simp only: run_head run_body)
       (simp_all add: waitForMoment_head waitForMoment_body)
  show ?thesis
  proof (intro conjI impI)
    assume m: "moment = JString (ascii ''document-head'') \<and> present = has_head
      \<or> moment = JString (ascii ''document-body'') \<and> present = has_body"
    {
      assume p: "present doc"
      from there [OF m p]
      show "attached (run events (waitForMoment moment doc)) = None"
        and "disconnects (run events (waitForMoment moment doc)) = 0"
        by (rule conjunct1, rule conjunct2)
    }
    {
      assume p: "\<not> present doc"
      note r = missing [OF m p]
      from r show "attached (waitForMoment moment doc) \<noteq> None"
        by (rule conjunct1)
      from r show "disconnects (run events (waitForMoment moment doc))
             = (if \<exists>d. (Mutation, d) \<in> set events \<and> present d then 1 else 0)"
        by (elim conjE)
      from r show "attached (run events (waitForMoment moment doc)) = None
             \<longleftrightarrow> (\<exists>d. (Mutation, d) \<in> set events \<and> present d)"
        by (elim conjE)
      from r show "promise (run events (waitForMoment moment doc))
             = (if \<exists>d. (Mutation, d) \<in> set events \<and> present d then Fulfilled else Pending)"
        by (elim conjE)
    }
  next
    assume m: "moment = JString (ascii ''document-end'') \<or> moment = JString (ascii ''window-load'')"
    from listeners [OF m]
    show "attached (run events (waitForMoment moment doc)) = attached (waitForMoment moment doc)"
      and "disconnects (run events (waitForMoment moment doc)) = 0"
      by (rule conjunct1, rule conjunct2)
  qed
qed


theorem observer_disconnected_once_witness:
  "\<not> has_head \<lparr>has_head = False, has_body = False, readyState = Loading\<rparr>
   \<and> disconnects (run [(Mutation, \<lparr>has_head = False, has_body = False, readyState = Loading\<rparr>),
                        (Mutation, \<lparr>has_head = True, has_body = False, readyState = Loading\<rparr>),
                        (Mutation, \<lparr>has_head = True, has_body = True, readyState = Loading\<rparr>)]
        (waitForMoment (JString (ascii ''document-head''))
           \<lparr>has_head = False, has_body = False, readyState = Loading\<rparr>)) = 1
   \<and> attached (run [(Mutation, \<lparr>has_head = False, has_body = False, readyState = Loading\<rparr>),
                     (Mutation, \<lparr>has_head = True, has_body = False, readyState = Loading\<rparr>),
                     (Mutation, \<lparr>has_head = True, has_body = True, readyState = Loading\<rparr>)]
        (waitForMoment (JString (ascii ''document-head''))
           \<lparr>has_head = False, has_body = False, readyState = Loading\<rparr>)) = None
   \<and> disconnects (run [(Mutation, \<lparr>has_head = False, has_body = False, readyState = Loading\<rparr>)]
        (waitForMoment (JString (ascii ''document-head''))
           \<lparr>has_head = False, has_body = False, readyState = Loading\<rparr>)) = 0
   \<and> promise (run [(Mutation, \<lparr>has_head = False, has_body = False, readyState = Loading\<rparr>)]
        (waitForMoment (JString (ascii ''document-head''))
           \<lparr>has_head = False, has_body = False, readyState = Loading\<rparr>)) = Pending
   \<and> attached (run [(Load, \<lparr>has_head = True, has_body = True, readyState = Complete\<rparr>)]
        (waitForMoment (JString (ascii ''window-load''))
           \<lparr>has_head = False, has_body = False, readyState = Loading\<rparr>)) = Some LoadListener"
  using observer_disconnected_once [of "JString (ascii ''document-head'')" has_head
      "\<lparr>has_head = False, has_body = False, readyState = Loading\<rparr>"
      "[(Mutation, \<lparr>has_head = False, has_body = False, readyState = Loading\<rparr>),
        (Mutation, \<lparr>has_head = True, has_body = False, readyState = Loading\<rparr>),
        (Mutation, \<lparr>has_head = True, has_body = True, readyState = Loading\<rparr>)]"]
    observer_disconnected_once [of "JString (ascii ''document-head'')" has_head
      "\<lparr>has_head = False, has_body = False, readyState = Loading\<rparr>"
      "[(Mutation, \<lparr>has_head = False, has_body = False, readyState = Loading\<rparr>)]"]
    observer_disconnected_once [of "JString (ascii ''window-load'')" has_head
      "\<lparr>has_head = False, has_body = False, readyState = Loading\<rparr>"
      "[(Load, \<lparr>has_head = True, has_body = True, readyState = Complete\<rparr>)]"]
  by (simp add: waitForMoment_load conj_disj_distribR ex_disj_distrib)


section \<open>The calls of deepestIterate\<close>

lemma inner_object_iff:
  "isPlainObject v \<and> \<not> isEmpty v \<longleftrightarrow> (\<exists>p ps. v = JObject (p # ps))"
  by (cases v) (auto simp: isPlainObject_def isEmpty_def neq_Nil_conv)

lemma dotted_single: "dotted [k] = k"
  by (simp add: dotted_def)

lemma dotted_Cons: "ks \<noteq> [] \<Longrightarrow> dotted (k # ks) = k @ ascii ''.'' @ dotted ks"
  by (cases ks) (simp_all add: dotted_def)

lemma deepestIterate_step:
  "deepestIterate ((key, v) # rest) path =
     (if isPlainObject v \<and> \<not> isEmpty v
      then deepestIterate (own_properties v)
             (Some (case path of None \<Rightarrow> key
                    | Some p \<Rightarrow> if p = [] then key else p @ ascii ''.'' @ key))
      else [(v, case path of None \<Rightarrow> key
                | Some p \<Rightarrow> if p = [] then key else p @ ascii ''.'' @ key)])
     @ deepestIterate rest path"
  by (simp only: deepestIterate.simps(2) Let_def)

lemma leaves_inner:
  "leaves ((key, JObject (q # qs)) # rest) =
     map (\<lambda>(leaf, ks). (leaf, key # ks)) (leaves (q # qs)) @ leaves rest"
  by simp

lemma leaves_leaf:
  "\<not> (isPlainObject v \<and> \<not> isEmpty v) \<Longrightarrow> leaves ((key, v) # rest) = (v, [key]) # leaves rest"
  by (cases v) (auto simp: isPlainObject_def isEmpty_def split: list.splits)

declare leaves.simps(2) [simp del]

lemma leaves_keys_nonempty: "(leaf, ks) \<in> set (leaves obj) \<Longrightarrow> ks \<noteq> []"
proof (induction obj arbitrary: leaf ks rule: leaves.induct)
  case 1
  then show ?case by simp
next
  case (2 key v rest)
  show ?case
  proof (cases "isPlainObject v \<and> \<not> isEmpty v")
    case True
    then obtain q qs where v: "v = JObject (q # qs)"
      using inner_object_iff by blast
    from "2.prems" have "(leaf, ks) \<in> set (map (\<lambda>(leaf, ks). (leaf, key # ks)) (leaves (q # qs)))
        \<or> (leaf, ks) \<in> set (leaves rest)"
      by (simp only: v leaves_inner set_append Un_iff)
    then show ?thesis
      using "2.IH"(2) by auto
  next
    case False
    from "2.prems" have "(leaf, ks) = (v, [key]) \<or> (leaf, ks) \<in> set (leaves rest)"
      by (simp only: leaves_leaf [OF False] set_simps insert_iff)
    then show ?thesis
      using "2.IH"(2) by auto
  qed
qed

lemma prefix_paths:
  "map (\<lambda>(leaf, ks). (leaf, (p @ ascii ''.'' @ key) @ ascii ''.'' @ dotted ks)) (leaves obj)
     = map (\<lambda>(leaf, ks). (leaf, p @ ascii ''.'' @ dotted ks))
         (map (\<lambda>(leaf, ks). (leaf, key # ks)) (leaves obj))"
proof -
  have "(p @ ascii ''.'' @ key) @ ascii ''.'' @ dotted ks = p @ ascii ''.'' @ dotted (key # ks)"
    if "(leaf, ks) \<in> set (leaves obj)" for leaf ks
    using leaves_keys_nonempty [OF that] by (simp add: dotted_Cons)
  then show ?thesis
    by (auto simp del: append_assoc)
qed

lemma deepestIterate_under_path:
  "p \<noteq> [] \<Longrightarrow>
     deepestIterate obj (Some p) =
       map (\<lambda>(leaf, ks). (leaf, p @ ascii ''.'' @ dotted ks)) (leaves obj)"
proof (induction obj "Some p" arbitrary: p rule: deepestIterate.induct)
  case 1
  then show ?case by (simp add: deepestIterate.simps(1))
next
  case (2 key v rest)
  have rest: "deepestIterate rest (Some p) =
      map (\<lambda>(leaf, ks). (leaf, p @ ascii ''.'' @ dotted ks)) (leaves rest)"
    using "2.prems" by (intro "2.hyps"(2)) simp_all
  show ?case
  proof (cases "isPlainObject v \<and> \<not> isEmpty v")
    case True
    then obtain q qs where v: "v = JObject (q # qs)"
      using inner_object_iff by blast
    have "deepestIterate (own_properties v) (Some (p @ ascii ''.'' @ key)) =
        map (\<lambda>(leaf, ks). (leaf, (p @ ascii ''.'' @ key) @ ascii ''.'' @ dotted ks))
          (leaves (own_properties v))"
      using "2.prems" True by (intro "2.hyps"(1)) simp_all
    then have inner: "deepestIterate (own_properties v) (Some (p @ ascii ''.'' @ key)) =
        map (\<lambda>(leaf, ks). (leaf, p @ ascii ''.'' @ dotted ks))
          (map (\<lambda>(leaf, ks). (leaf, key # ks)) (leaves (q # qs)))"
      by (simp only: prefix_paths v own_properties_def jsvalue.case)
    have "deepestIterate ((key, v) # rest) (Some p) =
        deepestIterate (own_properties v) (Some (p @ ascii ''.'' @ key)) @ deepestIterate rest (Some p)"
      using True "2.prems" by (simp only: deepestIterate_step option.case if_True if_False simp_thms)
    then have "deepestIterate ((key, v) # rest) (Some p) =
        map (\<lambda>(leaf, ks). (leaf, p @ ascii ''.'' @ dotted ks))
          (map (\<lambda>(leaf, ks). (leaf, key # ks)) (leaves (q # qs)))
        @ map (\<lambda>(leaf, ks). (leaf, p @ ascii ''.'' @ dotted ks)) (leaves rest)"
      by (simp only: inner rest)
    then show ?thesis
      by (simp only: v leaves_inner map_append)
  next
    case False
    have "deepestIterate ((key, v) # rest) (Some p) =
        [(v, p @ ascii ''.'' @ key)] @ deepestIterate rest (Some p)"
      using False "2.prems" by (simp only: deepestIterate_step option.case if_True if_False simp_thms)
    then show ?thesis
      by (simp add: rest leaves_leaf [OF False] dotted_single)
  qed
qed


lemma deepestIterate_from_root:
  assumes "\<forall>(key, v) \<in> set obj. key = [] \<longrightarrow> \<not> (isPlainObject v \<and> \<not> isEmpty v)"
  shows "deepestIterate obj None = map (\<lambda>(leaf, ks). (leaf, dotted ks)) (leaves obj)"
  using assms
proof (induction obj)
  case Nil
  then show ?case by (simp add: deepestIterate.simps(1))
next
  case (Cons kv rest)
  obtain key v where kv: "kv = (key, v)" by (cases kv)
  have rest: "deepestIterate rest None = map (\<lambda>(leaf, ks). (leaf, dotted ks)) (leaves rest)"
    using Cons.prems by (intro Cons.IH) simp
  show ?case
  proof (cases "isPlainObject v \<and> \<not> isEmpty v")
    case True
    then obtain q qs where v: "v = JObject (q # qs)"
      using inner_object_iff by blast
    from True Cons.prems kv have key: "key \<noteq> []"
      by auto
    have "deepestIterate (own_properties v) (Some key) =
        map (\<lambda>(leaf, ks). (leaf, key @ ascii ''.'' @ dotted ks)) (leaves (own_properties v))"
      by (rule deepestIterate_under_path [OF key])
    also have "\<dots> = map (\<lambda>(leaf, ks). (leaf, dotted ks))
          (map (\<lambda>(leaf, ks). (leaf, key # ks)) (leaves (q # qs)))"
      by (auto simp: v own_properties_def dotted_Cons dest: leaves_keys_nonempty)
    finally have inner: "deepestIterate (own_properties v) (Some key) =
        map (\<lambda>(leaf, ks). (leaf, dotted ks))
          (map (\<lambda>(leaf, ks). (leaf, key # ks)) (leaves (q # qs)))" .
    have "deepestIterate ((key, v) # rest) None =
        deepestIterate (own_properties v) (Some key) @ deepestIterate rest None"
      using True by (simp only: deepestIterate_step option.case if_True simp_thms)
    then have "deepestIterate ((key, v) # rest) None =
        map (\<lambda>(leaf, ks). (leaf, dotted ks))
          (map (\<lambda>(leaf, ks). (leaf, key # ks)) (leaves (q # qs)))
        @ map (\<lambda>(leaf, ks). (leaf, dotted ks)) (leaves rest)"
      by (simp only: inner rest)
    then show ?thesis
      by (simp only: kv v leaves_inner map_append)
  next
    case False
    have "deepestIterate ((key, v) # rest) None = [(v, key)] @ deepestIterate rest None"
      using False by (simp only: deepestIterate_step option.case if_False simp_thms)
    then show ?thesis
      by (simp add: kv rest leaves_leaf [OF False] dotted_single)
  qed
qed

lemma deepestIterate_values:
  "map fst (deepestIterate obj path) = map fst (leaves obj)"
proof (induction obj path rule: deepestIterate.induct)
  case (1 path)
  then show ?case by (simp add: deepestIterate.simps(1))
next
  case (2 key v rest path)
  show ?case
  proof (cases "isPlainObject v \<and> \<not> isEmpty v")
    case True
    then obtain q qs where v: "v = JObject (q # qs)"
      using inner_object_iff by blast
    have "map fst (deepestIterate (own_properties v)
              (Some (case path of None \<Rightarrow> key
                     | Some p \<Rightarrow> if p = [] then key else p @ ascii ''.'' @ key)))
        = map fst (leaves (own_properties v))"
      using True by (intro "2.IH"(1)) simp_all
    moreover have "deepestIterate ((key, v) # rest) path =
        deepestIterate (own_properties v)
          (Some (case path of None \<Rightarrow> key
                 | Some p \<Rightarrow> if p = [] then key else p @ ascii ''.'' @ key))
        @ deepestIterate rest path"
      using True by (simp only: deepestIterate_step if_True simp_thms)
    ultimately show ?thesis
      by (simp add: "2.IH"(2) v leaves_inner own_properties_def comp_def case_prod_unfold)
  next
    case False
    have "deepestIterate ((key, v) # rest) path =
        [(v, case path of None \<Rightarrow> key
             | Some p \<Rightarrow> if p = [] then key else p @ ascii ''.'' @ key)]
        @ deepestIterate rest path"
      using False by (simp only: deepestIterate_step if_False simp_thms)
    then show ?thesis
      by (simp add: "2.IH"(2) leaves_leaf [OF False])
  qed
qed


text \<open>
  The part of claim C8 that the code keeps. Whatever the tree and the starting path, the
  callback is called once per leaf, in enumeration order, with the leaf as its first
  argument, hence not at all for a root without properties; and when no property of the
  root with the empty key holds a non-empty plain object, the second argument is the
  dotted path of the leaf.
\<close>

lemma deepestIterate_visits_leaves:
  "map fst (deepestIterate obj path) = map fst (leaves obj)
   \<and> deepestIterate [] path = []
   \<and> ((\<forall>(key, v) \<in> set obj. key = [] \<longrightarrow> \<not> (isPlainObject v \<and> \<not> isEmpty v)) \<longrightarrow>
        deepestIterate obj None = map (\<lambda>(leaf, ks). (leaf, dotted ks)) (leaves obj))"
  using deepestIterate_values deepestIterate_from_root
  by (simp add: deepestIterate.simps(1))

text \<open>The example of the spec: \<open>deepestIterate({a:{b:1,c:{}},d:2}, cb)\<close>.\<close>

lemma deepestIterate_example:
  "deepestIterate
     [(ascii ''a'', JObject [(ascii ''b'', JNumber (SafeInteger False 1)), (ascii ''c'', JObject [])]),
      (ascii ''d'', JNumber (SafeInteger False 2))] None
   = [(JNumber (SafeInteger False 1), ascii ''a.b''), (JObject [], ascii ''a.c''), (JNumber (SafeInteger False 2), ascii ''d'')]"
  by (simp add: deepestIterate.simps isPlainObject_def isEmpty_def own_properties_def ascii_def)

text \<open>
  Claim C8 says that the callback gets the dotted path of every leaf. On
  \<open>{"": {a: 1}}\<close> the leaf \<open>1\<close> lies under the keys \<open>""\<close> and \<open>a\<close>, whose
  dotted path is \<open>.a\<close>; the code passes \<open>a\<close>, because the recursive call receives the
  path \<open>""\<close> and the test \<open>path ?\<close> takes the empty string for an absent path.
\<close>

theorem deepestIterate_empty_key:
  "deepestIterate [([], JObject [(ascii ''a'', JNumber (SafeInteger False 1))])] None = [(JNumber (SafeInteger False 1), ascii ''a'')]
   \<and> leaves [([], JObject [(ascii ''a'', JNumber (SafeInteger False 1))])] = [(JNumber (SafeInteger False 1), [[], ascii ''a''])]
   \<and> dotted [[], ascii ''a''] = ascii ''.a''
   \<and> ascii ''a'' \<noteq> ascii ''.a''"
  by (simp add: deepestIterate.simps isPlainObject_def isEmpty_def own_properties_def ascii_def
      leaves.simps dotted_def)

theorem deepestIterate_empty_key_witness:
  "map snd (deepestIterate [([], JObject [(ascii ''a'', JNumber (SafeInteger False 1))])] None)
     \<noteq> map (\<lambda>(leaf, ks). dotted ks) (leaves [([], JObject [(ascii ''a'', JNumber (SafeInteger False 1))])])"
  using deepestIterate_empty_key by simp


section \<open>The exceptions of packFormData\<close>

lemma js_toString_throws_TypeError:
  "js_toString v = Inl e \<Longrightarrow> e = TypeError"
  "array_join xs = Inl e \<Longrightarrow> e = TypeError"
  by (induction v and xs rule: js_toString_array_join.induct)
     (auto split: if_splits sum.splits)

lemma js_toString_nullish:
  "v = JNull \<or> v = JUndefined \<Longrightarrow> js_toString v = Inl TypeError"
  by auto

lemma each_throwing_append:
  "each_throwing
     (\<lambda>(key, v) formData.
        case js_toString v of
          Inl e \<Rightarrow> Inl e
        | Inr s \<Rightarrow> Inr (FormData_append formData key s))
     json acc =
   (if \<forall>(key, v) \<in> set json. \<not> isl (js_toString v)
    then Inr (acc @ map (\<lambda>(key, v). (to_USVString key, to_USVString (projr (js_toString v)))) json)
    else Inl TypeError)"
proof (induction json arbitrary: acc)
  case Nil
  then show ?case by simp
next
  case (Cons kv json)
  obtain key v where kv: "kv = (key, v)" by (cases kv)
  show ?case
  proof (cases "js_toString v")
    case (Inl e)
    then have "e = TypeError" by (rule js_toString_throws_TypeError)
    with Inl kv show ?thesis by simp
  next
    case (Inr s)
    with kv Cons.IH [of "FormData_append acc key s"] show ?thesis
      by (simp add: FormData_append_def)
  qed
qed

lemma packFormData_by_keys:
  "\<not> isArrayLike json \<Longrightarrow>
     packFormData json =
       (if \<forall>(key, v) \<in> set json. \<not> isl (js_toString v)
        then Inr (map (\<lambda>(key, v). (to_USVString key, to_USVString (projr (js_toString v)))) json)
        else Inl TypeError)"
  unfolding packFormData_def lodash_forEach_def
  by (simp only: if_False each_throwing_append append_Nil)


text \<open>
  On every mapping that \<open>forEach\<close> walks by its keys (one without a valid
  \<open>length\<close>), \<open>toString\<close> is called on every value with no guard, so a
  key bound to \<open>null\<close> or \<open>undefined\<close> makes \<open>packFormData\<close> throw a TypeError; a
  form is returned only when no value is nullish, and it then holds every key with the
  string of its value, in order; and a form is returned whenever every value has a string.
\<close>

lemma packFormData_walked_by_keys:
  "\<not> isArrayLike json \<longrightarrow>
     ((\<exists>(key, v) \<in> set json. v = JNull \<or> v = JUndefined) \<longrightarrow> packFormData json = Inl TypeError)
     \<and> (\<forall>formData. packFormData json = Inr formData \<longrightarrow>
           (\<forall>(key, v) \<in> set json. v \<noteq> JNull \<and> v \<noteq> JUndefined)
           \<and> formData =
               map (\<lambda>(key, v). (to_USVString key, to_USVString (projr (js_toString v)))) json)
     \<and> ((\<forall>(key, v) \<in> set json. \<not> isl (js_toString v)) \<longrightarrow>
           (\<exists>formData. packFormData json = Inr formData))"
proof (intro impI)
  assume keys: "\<not> isArrayLike json"
  note eq = packFormData_by_keys [OF keys]
  have nullish: "packFormData json = Inl TypeError"
    if "\<exists>(key, v) \<in> set json. v = JNull \<or> v = JUndefined"
  proof -
    from that obtain key v where "(key, v) \<in> set json" "v = JNull \<or> v = JUndefined"
      by auto
    then have "\<not> (\<forall>(key, v) \<in> set json. \<not> isl (js_toString v))"
      by (auto intro!: bexI [of _ "(key, v)"])
    with eq show ?thesis by simp
  qed
  have returned: "(\<forall>(key, v) \<in> set json. v \<noteq> JNull \<and> v \<noteq> JUndefined)
      \<and> formData = map (\<lambda>(key, v). (to_USVString key, to_USVString (projr (js_toString v)))) json"
    if "packFormData json = Inr formData" for formData
  proof -
    from that eq have all: "\<forall>(key, v) \<in> set json. \<not> isl (js_toString v)"
      and fd: "formData
          = map (\<lambda>(key, v). (to_USVString key, to_USVString (projr (js_toString v)))) json"
      by (auto split: if_splits)
    from all have "\<forall>(key, v) \<in> set json. v \<noteq> JNull \<and> v \<noteq> JUndefined"
      by fastforce
    with fd show ?thesis by simp
  qed
  have total: "\<exists>formData. packFormData json = Inr formData"
    if "\<forall>(key, v) \<in> set json. \<not> isl (js_toString v)"
    using that eq by simp
  from nullish returned total
  show "((\<exists>(key, v) \<in> set json. v = JNull \<or> v = JUndefined) \<longrightarrow> packFormData json = Inl TypeError)
     \<and> (\<forall>formData. packFormData json = Inr formData \<longrightarrow>
           (\<forall>(key, v) \<in> set json. v \<noteq> JNull \<and> v \<noteq> JUndefined)
           \<and> formData =
               map (\<lambda>(key, v). (to_USVString key, to_USVString (projr (js_toString v)))) json)
     \<and> ((\<forall>(key, v) \<in> set json. \<not> isl (js_toString v)) \<longrightarrow>
           (\<exists>formData. packFormData json = Inr formData))"
    by blast
qed


lemma packFormData_walked_by_keys_example:
  "\<not> isArrayLike [(ascii ''a'', JNumber (SafeInteger False 1)), (ascii ''b'', JNull)]
   \<and> packFormData [(ascii ''a'', JNumber (SafeInteger False 1)), (ascii ''b'', JNull)] = Inl TypeError
   \<and> \<not> isArrayLike [(ascii ''a'', JNumber (SafeInteger False 1)), (ascii ''b'', JString (ascii ''x'')),
         (ascii ''c'', JObject [(ascii ''d'', JNull)])]
   \<and> packFormData [(ascii ''a'', JNumber (SafeInteger False 1)), (ascii ''b'', JString (ascii ''x'')),
         (ascii ''c'', JObject [(ascii ''d'', JNull)])]
       = Inr [(ascii ''a'', ascii ''1''), (ascii ''b'', ascii ''x''),
              (ascii ''c'', ascii ''[object Object]'')]"
proof -
  have n1: "\<not> isArrayLike [(ascii ''a'', JNumber (SafeInteger False 1)), (ascii ''b'', JNull)]"
    by (simp add: isArrayLike_def isLength_def obj_get_def ascii_def)
  have n2: "\<not> isArrayLike [(ascii ''a'', JNumber (SafeInteger False 1)), (ascii ''b'', JString (ascii ''x'')),
         (ascii ''c'', JObject [(ascii ''d'', JNull)])]"
    by (simp add: isArrayLike_def isLength_def obj_get_def ascii_def)
  have t1: "packFormData [(ascii ''a'', JNumber (SafeInteger False 1)), (ascii ''b'', JNull)] = Inl TypeError"
    using packFormData_walked_by_keys [of "[(ascii ''a'', JNumber (SafeInteger False 1)), (ascii ''b'', JNull)]"] n1
    by simp
  have t2: "packFormData [(ascii ''a'', JNumber (SafeInteger False 1)), (ascii ''b'', JString (ascii ''x'')),
         (ascii ''c'', JObject [(ascii ''d'', JNull)])]
       = Inr [(ascii ''a'', ascii ''1''), (ascii ''b'', ascii ''x''),
              (ascii ''c'', ascii ''[object Object]'')]"
    using packFormData_walked_by_keys [of "[(ascii ''a'', JNumber (SafeInteger False 1)),
        (ascii ''b'', JString (ascii ''x'')), (ascii ''c'', JObject [(ascii ''d'', JNull)])]"] n2
    by (simp add: ascii_def digits_radix.simps digit_char_def
        is_high_surrogate_def is_low_surrogate_def) blast
  from n1 n2 t1 t2 show ?thesis by blast
qed

text \<open>
  Claim C10 says that \<open>toString\<close> is called on every value of the mapping, so that a key
  bound to \<open>null\<close> or \<open>undefined\<close> makes \<open>packFormData\<close> throw a TypeError. The
  code walks the mapping with \<open>_.forEach\<close>, which takes an object with a valid
  \<open>length\<close> for an array and visits the indices below that length instead of the keys
  (\<open>deepestIterate\<close> walks with \<open>_.forOwn\<close>, which does not). On
  \<open>{length: 0, a: null}\<close> the callback never runs: an empty form is returned and no
  TypeError is thrown; on \<open>{length: 0, a: "x"}\<close> the entry \<open>a\<close> is lost as well.
\<close>

theorem packFormData_array_like_returns:
  "isArrayLike [(ascii ''length'', JNumber (SafeInteger False 0)), (ascii ''a'', JNull)]
   \<and> packFormData [(ascii ''length'', JNumber (SafeInteger False 0)), (ascii ''a'', JNull)]
       = Inr []
   \<and> packFormData
        [(ascii ''length'', JNumber (SafeInteger False 0)), (ascii ''a'', JString (ascii ''x''))]
       = Inr []"
  by (simp add: packFormData_def lodash_forEach_def isArrayLike_def isLength_def obj_get_def
      MAX_SAFE_INTEGER_def ascii_def)

theorem packFormData_array_like_returns_witness:
  "packFormData [(ascii ''length'', JNumber (SafeInteger False 0)), (ascii ''a'', JNull)]
     \<noteq> Inl TypeError"
  using packFormData_array_like_returns by simp


section \<open>The effect of wbiSign on params\<close>

lemma map_of_obj_set: "map_of (obj_set obj key v) = (map_of obj)(key \<mapsto> v)"
  by (induction obj key v rule: obj_set.induct) auto

lemma keys_obj_set:
  "Object_keys (obj_set obj key v) =
     (if key \<in> set (Object_keys obj) then Object_keys obj else Object_keys obj @ [key])"
  by (induction obj key v rule: obj_set.induct) (auto simp: Object_keys_def)

lemma obj_get_obj_set:
  "obj_get (obj_set obj key v) k = (if k = key then v else obj_get obj k)"
  by (simp add: obj_get_def map_of_obj_set)

text \<open>
  Claim C4. Whether \<open>wbiSign\<close> returns or throws, the caller's \<open>params\<close> is afterwards
  the old object with \<open>wts\<close> set to the value of \<open>ts()\<close>, the Unix time in whole
  seconds: \<open>wts\<close> is appended when it was absent and overwritten in place when it was
  there, every other key keeps its binding, and the keys are otherwise the same, in the
  same order. For every time value of the clock the Number written is the integer
  \<open>clock_ms div 1000\<close> itself: its sign and, exactly, its magnitude.
\<close>

theorem wbiSign_sets_wts:
  "fst (wbiSign clock_ms params imgKey subKey)
     = obj_set params (ascii ''wts'') (JNumber (integer_Number (ts clock_ms)))
   \<and> ts clock_ms = clock_ms div 1000
   \<and> obj_get (fst (wbiSign clock_ms params imgKey subKey)) (ascii ''wts'')
       = JNumber (integer_Number (clock_ms div 1000))
   \<and> (\<bar>clock_ms\<bar> \<le> 8640000000000000 \<longrightarrow>
        integer_Number (clock_ms div 1000)
          = SafeInteger (clock_ms < 0) (word_of_int \<bar>clock_ms div 1000\<bar>)
        \<and> uint (word_of_int \<bar>clock_ms div 1000\<bar> :: 53 word) = \<bar>clock_ms div 1000\<bar>)
   \<and> (\<forall>key. key \<noteq> ascii ''wts'' \<longrightarrow>
         map_of (fst (wbiSign clock_ms params imgKey subKey)) key = map_of params key)
   \<and> set (Object_keys (fst (wbiSign clock_ms params imgKey subKey)))
       = insert (ascii ''wts'') (set (Object_keys params))
   \<and> Object_keys (fst (wbiSign clock_ms params imgKey subKey))
       = (if ascii ''wts'' \<in> set (Object_keys params) then Object_keys params
          else Object_keys params @ [ascii ''wts''])"
proof -
  have p: "fst (wbiSign clock_ms params imgKey subKey)
      = obj_set params (ascii ''wts'') (JNumber (integer_Number (ts clock_ms)))"
    by (simp add: wbiSign_def Let_def)
  have safe: "integer_Number (clock_ms div 1000)
          = SafeInteger (clock_ms < 0) (word_of_int \<bar>clock_ms div 1000\<bar>)
        \<and> uint (word_of_int \<bar>clock_ms div 1000\<bar> :: 53 word) = \<bar>clock_ms div 1000\<bar>"
    if "\<bar>clock_ms\<bar> \<le> 8640000000000000"
  proof -
    have "\<bar>clock_ms div 1000\<bar> < 2 ^ 53"
      using that by simp
    then have "uint (word_of_int \<bar>clock_ms div 1000\<bar> :: 53 word) = \<bar>clock_ms div 1000\<bar>"
      by (simp add: unsigned_of_int take_bit_int_eq_self)
    moreover have "clock_ms div 1000 < 0 \<longleftrightarrow> clock_ms < 0"
      by linarith
    ultimately show ?thesis
      by (simp add: integer_Number_def)
  qed
  show ?thesis
    unfolding p
    using safe by (auto simp: obj_get_obj_set map_of_obj_set keys_obj_set ts_def)
qed

theorem wbiSign_sets_wts_witness:
  "ascii ''foo'' \<noteq> ascii ''wts''
   \<and> fst (wbiSign 1702204169123 [(ascii ''foo'', JString (ascii ''114''))] [] [])
       = [(ascii ''foo'', JString (ascii ''114'')), (ascii ''wts'', JNumber (SafeInteger False 1702204169))]
   \<and> fst (wbiSign 1702204169123
            [(ascii ''wts'', JNull), (ascii ''foo'', JString (ascii ''114''))] [] [])
       = [(ascii ''wts'', JNumber (SafeInteger False 1702204169)), (ascii ''foo'', JString (ascii ''114''))]"
  using wbiSign_sets_wts [of 1702204169123 "[(ascii ''foo'', JString (ascii ''114''))]" "[]" "[]"]
    wbiSign_sets_wts [of 1702204169123
      "[(ascii ''wts'', JNull), (ascii ''foo'', JString (ascii ''114''))]" "[]" "[]"]
  by (simp add: ascii_def ts_def integer_Number_def)


section \<open>The query of wbiSign\<close>


















lemma wbi_pair_Inr:
  "wbi_pair params key = Inr p \<longleftrightarrow>
     (\<exists>s ek ev. js_toString (obj_get params key) = Inr s
        \<and> encodeURIComponent key = Inr ek
        \<and> encodeURIComponent (strip_chars s) = Inr ev
        \<and> p = ek @ ascii ''='' @ ev)"
  by (auto simp: wbi_pair_def Let_def split: sum.splits)













lemmas wbi_eval =
  wbiSign_def ts_def wbi_query_def js_sort_def string_less_def Object_keys_def wbi_pair_def
  obj_get_def integer_Number_def digits_radix.simps digit_char_def strip_chars_def
  uri_unreserved_def is_low_surrogate_def is_high_surrogate_def surrogate_pair_def
  utf8_octets_def percent_octet_def upper_hex_def ascii_def Let_def





text \<open>Numbers in the query: a safe integer with all its digits (a negative zero as
  \<open>0\<close>), any other Number with the string \<open>toString()\<close> gives it, such as
  \<open>1152921504606847000\<close> for \<open>2^60\<close> and \<open>1.5\<close>.\<close>

lemma wbi_query_numbers_example:
  "wbi_query
     [(ascii ''n'', JNumber (OtherNumber (ascii ''1152921504606847000''))),
      (ascii ''m'', JNumber (SafeInteger False 9007199254740991)),
      (ascii ''r'', JNumber (OtherNumber (ascii ''1.5''))),
      (ascii ''z'', JNumber (SafeInteger True 0)),
      (ascii ''k'', JNumber (SafeInteger True 42)),
      (ascii ''wts'', JNumber (SafeInteger False 5))]
   = Inr (ascii ''k=-42&m=9007199254740991&n=1152921504606847000&r=1.5&wts=5&z=0'')"
  by (simp add: wbi_eval)


section \<open>The result of wbiSign\<close>

lemma high_nibble: "0 \<le> uint (drop_bit 4 (b :: byte)) \<and> uint (drop_bit 4 b) < 16"
proof -
  have "uint b < 256"
    using uint_bounded [of b] by simp
  then have "uint b div 16 < 16" by simp
  moreover have "uint (drop_bit 4 b) = uint b div 16"
    by (simp add: drop_bit_eq_div uint_div_distrib)
  moreover have "0 \<le> uint (drop_bit 4 b)"
    by (rule uint_ge_0)
  ultimately show ?thesis by (simp only: simp_thms)
qed

lemma low_nibble: "0 \<le> uint ((b :: byte) AND 0x0f) \<and> uint (b AND 0x0f) < 16"
proof -
  have "b AND 0x0f \<le> 0x0f"
    by (rule word_and_le1)
  then have "uint (b AND 0x0f) \<le> uint (0x0f :: byte)"
    by (simp add: word_le_def)
  then show ?thesis by simp
qed

lemma Hex_stringify_octet:
  "Number_toString 16 (integer_Number (uint (drop_bit 4 (b :: byte)))) @
   Number_toString 16 (integer_Number (uint (b AND 0x0f)))
     = [digit_char (nat (uint (drop_bit 4 b))), digit_char (nat (uint (b AND 0x0f)))]"
  using high_nibble [of b] low_nibble [of b]
  by (simp add: Number_toString_nibble)

lemma Hex_stringify_length: "length (Hex_stringify octets) = 2 * length octets"
  unfolding Hex_stringify_def by (induction octets) (simp_all add: Hex_stringify_octet)

lemma Hex_stringify_lower_hex: "set (Hex_stringify octets) \<subseteq> lower_hex"
  unfolding Hex_stringify_def
proof (induction octets)
  case Nil
  then show ?case by simp
next
  case (Cons b octets)
  have "digit_char (nat (uint (drop_bit 4 b))) \<in> lower_hex"
    "digit_char (nat (uint (b AND 0x0f))) \<in> lower_hex"
    using high_nibble [of b] low_nibble [of b] by (blast intro: digit_char_lower_hex)+
  with Cons show ?case
    by (simp add: Hex_stringify_octet)
qed

text \<open>The rendering of an octet is its high digit, then its low digit, both from
  \<open>0123456789abcdef\<close>.\<close>

lemma digit_char_hex: "n < 16 \<Longrightarrow> digit_char n = ascii ''0123456789abcdef'' ! n"
proof -
  assume "n < 16"
  then have "n \<in> set [0..<16]" by simp
  then show ?thesis
    unfolding digit_char_def ascii_def
    by (simp add: upt_rec) (elim disjE; simp)
qed

lemma high_nibble_div: "nat (uint (drop_bit 4 (b :: byte))) = unat b div 16"
  by (simp only: unat_eq_nat_uint [symmetric] drop_bit_eq_div unat_div_distrib) simp

lemma low_nibble_mod: "nat (uint ((b :: byte) AND 0x0f)) = unat b mod 16"
proof -
  have "b AND 0x0f = b mod 16"
    using take_bit_eq_mask [of 4 b] by (simp add: mask_eq_exp_minus_1 take_bit_eq_mod)
  then show ?thesis
    by (simp only: unat_eq_nat_uint [symmetric] unat_mod_distrib) simp
qed

lemma Hex_stringify_digits:
  "Hex_stringify octets =
     concat (map (\<lambda>b. [ascii ''0123456789abcdef'' ! (unat b div 16),
                        ascii ''0123456789abcdef'' ! (unat b mod 16)]) octets)"
proof -
  have "Number_toString 16 (integer_Number (uint (drop_bit 4 b))) @
        Number_toString 16 (integer_Number (uint (b AND 0x0f)))
      = [ascii ''0123456789abcdef'' ! (unat b div 16),
         ascii ''0123456789abcdef'' ! (unat b mod 16)]" for b :: byte
  proof -
    have "unat b < 256"
      using unsigned_less [of b] by simp
    then have "unat b div 16 < 16" "unat b mod 16 < 16"
      by simp_all
    then show ?thesis
      by (simp only: Hex_stringify_octet high_nibble_div low_nibble_mod digit_char_hex)
  qed
  then show ?thesis
    by (simp only: Hex_stringify_def)
qed

lemma md5_length: "length (md5 m) = 16"
proof -
  obtain a b c d where "foldl md5_block (0x67452301, 0xefcdab89, 0x98badcfe, 0x10325476)
      (map (\<lambda>blk. map le32 (chunks 4 blk)) (chunks 64 (md5_pad m))) = (a, b, c, d)"
    by (rule prod_cases4)
  then show ?thesis
    by (simp add: md5_def le32_octets_def)
qed

lemma wbiSign_result:
  "snd (wbiSign clock_ms params imgKey subKey) =
     (case wbi_query (fst (wbiSign clock_ms params imgKey subKey)) of
        Inl e \<Rightarrow> Inl e
      | Inr query \<Rightarrow>
          (case Utf8_parse (query @ wbi_salt imgKey subKey) of
             Inl e \<Rightarrow> Inl e
           | Inr octets \<Rightarrow> Inr (query @ ascii ''&w_rid='' @ Hex_stringify (md5 octets))))"
  by (simp add: wbiSign_def Let_def CryptoJS_MD5_def split: sum.splits)

lemma replicate_numeral_unfold:
  "replicate (numeral k) x = x # replicate (pred_numeral k) x"
  by (simp add: numeral_eq_Suc)

text \<open>The sixty-four steps of a block, each with its constant and its rotation at hand.\<close>

lemma foldl_map_fst:
  "(\<And>a x. x \<in> set xs \<Longrightarrow> f a (fst x) = g a x) \<Longrightarrow> foldl f a (map fst xs) = foldl g a xs"
  by (induction xs arbitrary: a) simp_all

lemma md5_rounds:
  "foldl (md5_step M) st [0..<64] =
     foldl (\<lambda>st (i, k, s).
        case st of (a, b, c, d) \<Rightarrow>
          (let (f, g) =
             (if i < 16 then ((b AND c) OR (NOT b AND d), i)
              else if i < 32 then ((d AND b) OR (NOT d AND c), (5 * i + 1) mod 16)
              else if i < 48 then (b XOR c XOR d, (3 * i + 5) mod 16)
              else (c XOR (b OR NOT d), (7 * i) mod 16))
           in (d, b + rotl32 (f + a + k + M ! g) s, b, c)))
       st (zip [0..<64] (zip md5_K md5_S))"
proof -
  have len: "length md5_K = 64" "length md5_S = 64"
    by (simp_all add: md5_K_def md5_S_def)
  have "map fst (zip [0..<64] (zip md5_K md5_S)) = [0..<64]"
    using len by simp
  moreover have "md5_step M a (fst x) =
      (case x of (i, k, s) \<Rightarrow>
        case a of (a, b, c, d) \<Rightarrow>
          (let (f, g) =
             (if i < 16 then ((b AND c) OR (NOT b AND d), i)
              else if i < 32 then ((d AND b) OR (NOT d AND c), (5 * i + 1) mod 16)
              else if i < 48 then (b XOR c XOR d, (3 * i + 5) mod 16)
              else (c XOR (b OR NOT d), (7 * i) mod 16))
           in (d, b + rotl32 (f + a + k + M ! g) s, b, c)))"
    if "x \<in> set (zip [0..<64] (zip md5_K md5_S))" for a x
  proof -
    obtain i k s where x: "x = (i, k, s)" by (cases x)
    from that x obtain j where "j < 64" "[0..<64] ! j = i" "zip md5_K md5_S ! j = (k, s)"
      using len by (auto simp: in_set_zip)
    then have "md5_K ! i = k" "md5_S ! i = s"
      using len by auto
    then show ?thesis
      by (simp add: x md5_step_def)
  qed
  ultimately show ?thesis
    using foldl_map_fst [of "zip [0..<64] (zip md5_K md5_S)" "md5_step M" _ st]
    by (simp add: case_prod_unfold)
qed


text \<open>
  The test suite of RFC 1321 (appendix A.5), the 56 octets that fill a block up to its
  length field, and a message with characters of two, three and four UTF-8 octets: the
  message goes through \<open>Utf8_parse\<close>, \<open>md5\<close> and \<open>Hex_stringify\<close>, as
  \<open>CryptoJS.MD5(message).toString()\<close> does. Every block is evaluated on its own.
\<close>

lemma md5_block_empty_0:
  "md5_block (0x67452301, 0xefcdab89, 0x98badcfe, 0x10325476)
     [0x00000080, 0x00000000, 0x00000000, 0x00000000,
      0x00000000, 0x00000000, 0x00000000, 0x00000000,
      0x00000000, 0x00000000, 0x00000000, 0x00000000,
      0x00000000, 0x00000000, 0x00000000, 0x00000000] =
   (0xd98c1dd4, 0x04b2008f, 0x980980e9, 0x7e42f8ec)"
  unfolding md5_block_def md5_rounds
  by (simp add: md5_K_def md5_S_def rotl32_def upt_rec)

lemma md5_digest_empty:
  "md5 [] =
     [0xd4, 0x1d, 0x8c, 0xd9, 0x8f, 0x00, 0xb2, 0x04, 0xe9, 0x80, 0x09, 0x98,
      0xec, 0xf8, 0x42, 0x7e]"
proof -
  have pad: "md5_pad [] =
      [0x80, 0x00, 0x00, 0x00, 0x00, 0x00, 0x00, 0x00, 0x00, 0x00, 0x00, 0x00,
       0x00, 0x00, 0x00, 0x00, 0x00, 0x00, 0x00, 0x00, 0x00, 0x00, 0x00, 0x00,
       0x00, 0x00, 0x00, 0x00, 0x00, 0x00, 0x00, 0x00, 0x00, 0x00, 0x00, 0x00,
       0x00, 0x00, 0x00, 0x00, 0x00, 0x00, 0x00, 0x00, 0x00, 0x00, 0x00, 0x00,
       0x00, 0x00, 0x00, 0x00, 0x00, 0x00, 0x00, 0x00, 0x00, 0x00, 0x00, 0x00,
       0x00, 0x00, 0x00, 0x00]"
    by (simp add: md5_pad_def upt_rec replicate_numeral_unfold)
  have blocks: "map (\<lambda>blk. map le32 (chunks 4 blk)) (chunks 64
      [0x80, 0x00, 0x00, 0x00, 0x00, 0x00, 0x00, 0x00, 0x00, 0x00, 0x00, 0x00,
       0x00, 0x00, 0x00, 0x00, 0x00, 0x00, 0x00, 0x00, 0x00, 0x00, 0x00, 0x00,
       0x00, 0x00, 0x00, 0x00, 0x00, 0x00, 0x00, 0x00, 0x00, 0x00, 0x00, 0x00,
       0x00, 0x00, 0x00, 0x00, 0x00, 0x00, 0x00, 0x00, 0x00, 0x00, 0x00, 0x00,
       0x00, 0x00, 0x00, 0x00, 0x00, 0x00, 0x00, 0x00, 0x00, 0x00, 0x00, 0x00,
       0x00, 0x00, 0x00, 0x00]) =
       [[0x00000080, 0x00000000, 0x00000000, 0x00000000,
         0x00000000, 0x00000000, 0x00000000, 0x00000000,
         0x00000000, 0x00000000, 0x00000000, 0x00000000,
         0x00000000, 0x00000000, 0x00000000, 0x00000000]]"
    by (simp add: le32_def)
  show ?thesis
    by (simp only: md5_def pad blocks foldl.simps md5_block_empty_0 prod.case)
       (simp add: le32_octets_def upt_rec)
qed

lemma md5_hex_empty:
  "map_sum id (Hex_stringify \<circ> md5) (Utf8_parse (ascii '''')) =
     Inr (ascii ''d41d8cd98f00b204e9800998ecf8427e'')"
proof -
  have octets: "Utf8_parse (ascii '''') =
      Inr []"
    by (simp add: ascii_def is_low_surrogate_def is_high_surrogate_def utf8_octets_def
        surrogate_pair_def)
  have hex: "Hex_stringify [0xd4, 0x1d, 0x8c, 0xd9, 0x8f, 0x00, 0xb2, 0x04, 0xe9, 0x80, 0x09, 0x98,
                         0xec, 0xf8, 0x42, 0x7e] =
      ascii ''d41d8cd98f00b204e9800998ecf8427e''"
    by (simp add: Hex_stringify_digits ascii_def)
  show ?thesis
    by (simp only: octets map_sum.simps comp_apply md5_digest_empty hex id_apply)
qed

lemma md5_block_a_0:
  "md5_block (0x67452301, 0xefcdab89, 0x98badcfe, 0x10325476)
     [0x00008061, 0x00000000, 0x00000000, 0x00000000,
      0x00000000, 0x00000000, 0x00000000, 0x00000000,
      0x00000000, 0x00000000, 0x00000000, 0x00000000,
      0x00000000, 0x00000000, 0x00000008, 0x00000000] =
   (0xb975c10c, 0xa8b6f1c0, 0xe299c331, 0x61267769)"
  unfolding md5_block_def md5_rounds
  by (simp add: md5_K_def md5_S_def rotl32_def upt_rec)

lemma md5_digest_a:
  "md5 [0x61] =
     [0x0c, 0xc1, 0x75, 0xb9, 0xc0, 0xf1, 0xb6, 0xa8, 0x31, 0xc3, 0x99, 0xe2,
      0x69, 0x77, 0x26, 0x61]"
proof -
  have pad: "md5_pad [0x61] =
      [0x61, 0x80, 0x00, 0x00, 0x00, 0x00, 0x00, 0x00, 0x00, 0x00, 0x00, 0x00,
       0x00, 0x00, 0x00, 0x00, 0x00, 0x00, 0x00, 0x00, 0x00, 0x00, 0x00, 0x00,
       0x00, 0x00, 0x00, 0x00, 0x00, 0x00, 0x00, 0x00, 0x00, 0x00, 0x00, 0x00,
       0x00, 0x00, 0x00, 0x00, 0x00, 0x00, 0x00, 0x00, 0x00, 0x00, 0x00, 0x00,
       0x00, 0x00, 0x00, 0x00, 0x00, 0x00, 0x00, 0x00, 0x08, 0x00, 0x00, 0x00,
       0x00, 0x00, 0x00, 0x00]"
    by (simp add: md5_pad_def upt_rec replicate_numeral_unfold)
  have blocks: "map (\<lambda>blk. map le32 (chunks 4 blk)) (chunks 64
      [0x61, 0x80, 0x00, 0x00, 0x00, 0x00, 0x00, 0x00, 0x00, 0x00, 0x00, 0x00,
       0x00, 0x00, 0x00, 0x00, 0x00, 0x00, 0x00, 0x00, 0x00, 0x00, 0x00, 0x00,
       0x00, 0x00, 0x00, 0x00, 0x00, 0x00, 0x00, 0x00, 0x00, 0x00, 0x00, 0x00,
       0x00, 0x00, 0x00, 0x00, 0x00, 0x00, 0x00, 0x00, 0x00, 0x00, 0x00, 0x00,
       0x00, 0x00, 0x00, 0x00, 0x00, 0x00, 0x00, 0x00, 0x08, 0x00, 0x00, 0x00,
       0x00, 0x00, 0x00, 0x00]) =
       [[0x00008061, 0x00000000, 0x00000000, 0x00000000,
         0x00000000, 0x00000000, 0x00000000, 0x00000000,
         0x00000000, 0x00000000, 0x00000000, 0x00000000,
         0x00000000, 0x00000000, 0x00000008, 0x00000000]]"
    by (simp add: le32_def)
  show ?thesis
    by (simp only: md5_def pad blocks foldl.simps md5_block_a_0 prod.case)
       (simp add: le32_octets_def upt_rec)
qed

lemma md5_hex_a:
  "map_sum id (Hex_stringify \<circ> md5) (Utf8_parse (ascii ''a'')) =
     Inr (ascii ''0cc175b9c0f1b6a831c399e269772661'')"
proof -
  have octets: "Utf8_parse (ascii ''a'') =
      Inr [0x61]"
    by (simp add: ascii_def is_low_surrogate_def is_high_surrogate_def utf8_octets_def
        surrogate_pair_def)
  have hex: "Hex_stringify [0x0c, 0xc1, 0x75, 0xb9, 0xc0, 0xf1, 0xb6, 0xa8, 0x31, 0xc3, 0x99, 0xe2,
                         0x69, 0x77, 0x26, 0x61] =
      ascii ''0cc175b9c0f1b6a831c399e269772661''"
    by (simp add: Hex_stringify_digits ascii_def)
  show ?thesis
    by (simp only: octets map_sum.simps comp_apply md5_digest_a hex id_apply)
qed

lemma md5_block_abc_0:
  "md5_block (0x67452301, 0xefcdab89, 0x98badcfe, 0x10325476)
     [0x80636261, 0x00000000, 0x00000000, 0x00000000,
      0x00000000, 0x00000000, 0x00000000, 0x00000000,
      0x00000000, 0x00000000, 0x00000000, 0x00000000,
      0x00000000, 0x00000000, 0x00000018, 0x00000000] =
   (0x98500190, 0xb04fd23c, 0x7d3f96d6, 0x727fe128)"
  unfolding md5_block_def md5_rounds
  by (simp add: md5_K_def md5_S_def rotl32_def upt_rec)

lemma md5_digest_abc:
  "md5 [0x61, 0x62, 0x63] =
     [0x90, 0x01, 0x50, 0x98, 0x3c, 0xd2, 0x4f, 0xb0, 0xd6, 0x96, 0x3f, 0x7d,
      0x28, 0xe1, 0x7f, 0x72]"
proof -
  have pad: "md5_pad [0x61, 0x62, 0x63] =
      [0x61, 0x62, 0x63, 0x80, 0x00, 0x00, 0x00, 0x00, 0x00, 0x00, 0x00, 0x00,
       0x00, 0x00, 0x00, 0x00, 0x00, 0x00, 0x00, 0x00, 0x00, 0x00, 0x00, 0x00,
       0x00, 0x00, 0x00, 0x00, 0x00, 0x00, 0x00, 0x00, 0x00, 0x00, 0x00, 0x00,
       0x00, 0x00, 0x00, 0x00, 0x00, 0x00, 0x00, 0x00, 0x00, 0x00, 0x00, 0x00,
       0x00, 0x00, 0x00, 0x00, 0x00, 0x00, 0x00, 0x00, 0x18, 0x00, 0x00, 0x00,
       0x00, 0x00, 0x00, 0x00]"
    by (simp add: md5_pad_def upt_rec replicate_numeral_unfold)
  have blocks: "map (\<lambda>blk. map le32 (chunks 4 blk)) (chunks 64
      [0x61, 0x62, 0x63, 0x80, 0x00, 0x00, 0x00, 0x00, 0x00, 0x00, 0x00, 0x00,
       0x00, 0x00, 0x00, 0x00, 0x00, 0x00, 0x00, 0x00, 0x00, 0x00, 0x00, 0x00,
       0x00, 0x00, 0x00, 0x00, 0x00, 0x00, 0x00, 0x00, 0x00, 0x00, 0x00, 0x00,
       0x00, 0x00, 0x00, 0x00, 0x00, 0x00, 0x00, 0x00, 0x00, 0x00, 0x00, 0x00,
       0x00, 0x00, 0x00, 0x00, 0x00, 0x00, 0x00, 0x00, 0x18, 0x00, 0x00, 0x00,
       0x00, 0x00, 0x00, 0x00]) =
       [[0x80636261, 0x00000000, 0x00000000, 0x00000000,
         0x00000000, 0x00000000, 0x00000000, 0x00000000,
         0x00000000, 0x00000000, 0x00000000, 0x00000000,
         0x00000000, 0x00000000, 0x00000018, 0x00000000]]"
    by (simp add: le32_def)
  show ?thesis
    by (simp only: md5_def pad blocks foldl.simps md5_block_abc_0 prod.case)
       (simp add: le32_octets_def upt_rec)
qed

lemma md5_hex_abc:
  "map_sum id (Hex_stringify \<circ> md5) (Utf8_parse (ascii ''abc'')) =
     Inr (ascii ''900150983cd24fb0d6963f7d28e17f72'')"
proof -
  have octets: "Utf8_parse (ascii ''abc'') =
      Inr [0x61, 0x62, 0x63]"
    by (simp add: ascii_def is_low_surrogate_def is_high_surrogate_def utf8_octets_def
        surrogate_pair_def)
  have hex: "Hex_stringify [0x90, 0x01, 0x50, 0x98, 0x3c, 0xd2, 0x4f, 0xb0, 0xd6, 0x96, 0x3f, 0x7d,
                         0x28, 0xe1, 0x7f, 0x72] =
      ascii ''900150983cd24fb0d6963f7d28e17f72''"
    by (simp add: Hex_stringify_digits ascii_def)
  show ?thesis
    by (simp only: octets map_sum.simps comp_apply md5_digest_abc hex id_apply)
qed

lemma md5_block_message_digest_0:
  "md5_block (0x67452301, 0xefcdab89, 0x98badcfe, 0x10325476)
     [0x7373656d, 0x20656761, 0x65676964, 0x00807473,
      0x00000000, 0x00000000, 0x00000000, 0x00000000,
      0x00000000, 0x00000000, 0x00000000, 0x00000000,
      0x00000000, 0x00000000, 0x00000070, 0x00000000] =
   (0x7d696bf9, 0x8d93b77c, 0x312f5a52, 0xd061f1aa)"
  unfolding md5_block_def md5_rounds
  by (simp add: md5_K_def md5_S_def rotl32_def upt_rec)

lemma md5_digest_message_digest:
  "md5 [0x6d, 0x65, 0x73, 0x73, 0x61, 0x67, 0x65, 0x20, 0x64, 0x69, 0x67, 0x65,
       0x73, 0x74] =
     [0xf9, 0x6b, 0x69, 0x7d, 0x7c, 0xb7, 0x93, 0x8d, 0x52, 0x5a, 0x2f, 0x31,
      0xaa, 0xf1, 0x61, 0xd0]"
proof -
  have pad: "md5_pad [0x6d, 0x65, 0x73, 0x73, 0x61, 0x67, 0x65, 0x20, 0x64, 0x69, 0x67, 0x65,
                     0x73, 0x74] =
      [0x6d, 0x65, 0x73, 0x73, 0x61, 0x67, 0x65, 0x20, 0x64, 0x69, 0x67, 0x65,
       0x73, 0x74, 0x80, 0x00, 0x00, 0x00, 0x00, 0x00, 0x00, 0x00, 0x00, 0x00,
       0x00, 0x00, 0x00, 0x00, 0x00, 0x00, 0x00, 0x00, 0x00, 0x00, 0x00, 0x00,
       0x00, 0x00, 0x00, 0x00, 0x00, 0x00, 0x00, 0x00, 0x00, 0x00, 0x00, 0x00,
       0x00, 0x00, 0x00, 0x00, 0x00, 0x00, 0x00, 0x00, 0x70, 0x00, 0x00, 0x00,
       0x00, 0x00, 0x00, 0x00]"
    by (simp add: md5_pad_def upt_rec replicate_numeral_unfold)
  have blocks: "map (\<lambda>blk. map le32 (chunks 4 blk)) (chunks 64
      [0x6d, 0x65, 0x73, 0x73, 0x61, 0x67, 0x65, 0x20, 0x64, 0x69, 0x67, 0x65,
       0x73, 0x74, 0x80, 0x00, 0x00, 0x00, 0x00, 0x00, 0x00, 0x00, 0x00, 0x00,
       0x00, 0x00, 0x00, 0x00, 0x00, 0x00, 0x00, 0x00, 0x00, 0x00, 0x00, 0x00,
       0x00, 0x00, 0x00, 0x00, 0x00, 0x00, 0x00, 0x00, 0x00, 0x00, 0x00, 0x00,
       0x00, 0x00, 0x00, 0x00, 0x00, 0x00, 0x00, 0x00, 0x70, 0x00, 0x00, 0x00,
       0x00, 0x00, 0x00, 0x00]) =
       [[0x7373656d, 0x20656761, 0x65676964, 0x00807473,
         0x00000000, 0x00000000, 0x00000000, 0x00000000,
         0x00000000, 0x00000000, 0x00000000, 0x00000000,
         0x00000000, 0x00000000, 0x00000070, 0x00000000]]"
    by (simp add: le32_def)
  show ?thesis
    by (simp only: md5_def pad blocks foldl.simps md5_block_message_digest_0 prod.case)
       (simp add: le32_octets_def upt_rec)
qed

lemma md5_hex_message_digest:
  "map_sum id (Hex_stringify \<circ> md5) (Utf8_parse (ascii ''message digest'')) =
     Inr (ascii ''f96b697d7cb7938d525a2f31aaf161d0'')"
proof -
  have octets: "Utf8_parse (ascii ''message digest'') =
      Inr [0x6d, 0x65, 0x73, 0x73, 0x61, 0x67, 0x65, 0x20, 0x64, 0x69, 0x67, 0x65,
           0x73, 0x74]"
    by (simp add: ascii_def is_low_surrogate_def is_high_surrogate_def utf8_octets_def
        surrogate_pair_def)
  have hex: "Hex_stringify [0xf9, 0x6b, 0x69, 0x7d, 0x7c, 0xb7, 0x93, 0x8d, 0x52, 0x5a, 0x2f, 0x31,
                         0xaa, 0xf1, 0x61, 0xd0] =
      ascii ''f96b697d7cb7938d525a2f31aaf161d0''"
    by (simp add: Hex_stringify_digits ascii_def)
  show ?thesis
    by (simp only: octets map_sum.simps comp_apply md5_digest_message_digest hex id_apply)
qed

lemma md5_block_alphabet_0:
  "md5_block (0x67452301, 0xefcdab89, 0x98badcfe, 0x10325476)
     [0x64636261, 0x68676665, 0x6c6b6a69, 0x706f6e6d,
      0x74737271, 0x78777675, 0x00807a79, 0x00000000,
      0x00000000, 0x00000000, 0x00000000, 0x00000000,
      0x00000000, 0x00000000, 0x000000d0, 0x00000000] =
   (0xd7d3fcc3, 0x00e49261, 0x6c49fb7d, 0x3be167ca)"
  unfolding md5_block_def md5_rounds
  by (simp add: md5_K_def md5_S_def rotl32_def upt_rec)

lemma md5_digest_alphabet:
  "md5 [0x61, 0x62, 0x63, 0x64, 0x65, 0x66, 0x67, 0x68, 0x69, 0x6a, 0x6b, 0x6c,
       0x6d, 0x6e, 0x6f, 0x70, 0x71, 0x72, 0x73, 0x74, 0x75, 0x76, 0x77, 0x78,
       0x79, 0x7a] =
     [0xc3, 0xfc, 0xd3, 0xd7, 0x61, 0x92, 0xe4, 0x00, 0x7d, 0xfb, 0x49, 0x6c,
      0xca, 0x67, 0xe1, 0x3b]"
proof -
  have pad: "md5_pad [0x61, 0x62, 0x63, 0x64, 0x65, 0x66, 0x67, 0x68, 0x69, 0x6a, 0x6b, 0x6c,
                     0x6d, 0x6e, 0x6f, 0x70, 0x71, 0x72, 0x73, 0x74, 0x75, 0x76, 0x77, 0x78,
                     0x79, 0x7a] =
      [0x61, 0x62, 0x63, 0x64, 0x65, 0x66, 0x67, 0x68, 0x69, 0x6a, 0x6b, 0x6c,
       0x6d, 0x6e, 0x6f, 0x70, 0x71, 0x72, 0x73, 0x74, 0x75, 0x76, 0x77, 0x78,
       0x79, 0x7a, 0x80, 0x00, 0x00, 0x00, 0x00, 0x00, 0x00, 0x00, 0x00, 0x00,
       0x00, 0x00, 0x00, 0x00, 0x00, 0x00, 0x00, 0x00, 0x00, 0x00, 0x00, 0x00,
       0x00, 0x00, 0x00, 0x00, 0x00, 0x00, 0x00, 0x00, 0xd0, 0x00, 0x00, 0x00,
       0x00, 0x00, 0x00, 0x00]"
    by (simp add: md5_pad_def upt_rec replicate_numeral_unfold)
  have blocks: "map (\<lambda>blk. map le32 (chunks 4 blk)) (chunks 64
      [0x61, 0x62, 0x63, 0x64, 0x65, 0x66, 0x67, 0x68, 0x69, 0x6a, 0x6b, 0x6c,
       0x6d, 0x6e, 0x6f, 0x70, 0x71, 0x72, 0x73, 0x74, 0x75, 0x76, 0x77, 0x78,
       0x79, 0x7a, 0x80, 0x00, 0x00, 0x00, 0x00, 0x00, 0x00, 0x00, 0x00, 0x00,
       0x00, 0x00, 0x00, 0x00, 0x00, 0x00, 0x00, 0x00, 0x00, 0x00, 0x00, 0x00,
       0x00, 0x00, 0x00, 0x00, 0x00, 0x00, 0x00, 0x00, 0xd0, 0x00, 0x00, 0x00,
       0x00, 0x00, 0x00, 0x00]) =
       [[0x64636261, 0x68676665, 0x6c6b6a69, 0x706f6e6d,
         0x74737271, 0x78777675, 0x00807a79, 0x00000000,
         0x00000000, 0x00000000, 0x00000000, 0x00000000,
         0x00000000, 0x00000000, 0x000000d0, 0x00000000]]"
    by (simp add: le32_def)
  show ?thesis
    by (simp only: md5_def pad blocks foldl.simps md5_block_alphabet_0 prod.case)
       (simp add: le32_octets_def upt_rec)
qed

lemma md5_hex_alphabet:
  "map_sum id (Hex_stringify \<circ> md5) (Utf8_parse (ascii ''abcdefghijklmnopqrstuvwxyz'')) =
     Inr (ascii ''c3fcd3d76192e4007dfb496cca67e13b'')"
proof -
  have octets: "Utf8_parse (ascii ''abcdefghijklmnopqrstuvwxyz'') =
      Inr [0x61, 0x62, 0x63, 0x64, 0x65, 0x66, 0x67, 0x68, 0x69, 0x6a, 0x6b, 0x6c,
           0x6d, 0x6e, 0x6f, 0x70, 0x71, 0x72, 0x73, 0x74, 0x75, 0x76, 0x77, 0x78,
           0x79, 0x7a]"
    by (simp add: ascii_def is_low_surrogate_def is_high_surrogate_def utf8_octets_def
        surrogate_pair_def)
  have hex: "Hex_stringify [0xc3, 0xfc, 0xd3, 0xd7, 0x61, 0x92, 0xe4, 0x00, 0x7d, 0xfb, 0x49, 0x6c,
                         0xca, 0x67, 0xe1, 0x3b] =
      ascii ''c3fcd3d76192e4007dfb496cca67e13b''"
    by (simp add: Hex_stringify_digits ascii_def)
  show ?thesis
    by (simp only: octets map_sum.simps comp_apply md5_digest_alphabet hex id_apply)
qed

lemma md5_block_alphanumeric_0:
  "md5_block (0x67452301, 0xefcdab89, 0x98badcfe, 0x10325476)
     [0x44434241, 0x48474645, 0x4c4b4a49, 0x504f4e4d,
      0x54535251, 0x58575655, 0x62615a59, 0x66656463,
      0x6a696867, 0x6e6d6c6b, 0x7271706f, 0x76757473,
      0x7a797877, 0x33323130, 0x37363534, 0x00803938] =
   (0x83fd320b, 0xdefbe5cf, 0xa9b1642f, 0xfa6f932a)"
  unfolding md5_block_def md5_rounds
  by (simp add: md5_K_def md5_S_def rotl32_def upt_rec)

lemma md5_block_alphanumeric_1:
  "md5_block (0x83fd320b, 0xdefbe5cf, 0xa9b1642f, 0xfa6f932a)
     [0x00000000, 0x00000000, 0x00000000, 0x00000000,
      0x00000000, 0x00000000, 0x00000000, 0x00000000,
      0x00000000, 0x00000000, 0x00000000, 0x00000000,
      0x00000000, 0x00000000, 0x000001f0, 0x00000000] =
   (0x98ab74d1, 0xf5d977d2, 0x2c1c61a5, 0x9f9d419f)"
  unfolding md5_block_def md5_rounds
  by (simp add: md5_K_def md5_S_def rotl32_def upt_rec)

lemma md5_digest_alphanumeric:
  "md5 [0x41, 0x42, 0x43, 0x44, 0x45, 0x46, 0x47, 0x48, 0x49, 0x4a, 0x4b, 0x4c,
       0x4d, 0x4e, 0x4f, 0x50, 0x51, 0x52, 0x53, 0x54, 0x55, 0x56, 0x57, 0x58,
       0x59, 0x5a, 0x61, 0x62, 0x63, 0x64, 0x65, 0x66, 0x67, 0x68, 0x69, 0x6a,
       0x6b, 0x6c, 0x6d, 0x6e, 0x6f, 0x70, 0x71, 0x72, 0x73, 0x74, 0x75, 0x76,
       0x77, 0x78, 0x79, 0x7a, 0x30, 0x31, 0x32, 0x33, 0x34, 0x35, 0x36, 0x37,
       0x38, 0x39] =
     [0xd1, 0x74, 0xab, 0x98, 0xd2, 0x77, 0xd9, 0xf5, 0xa5, 0x61, 0x1c, 0x2c,
      0x9f, 0x41, 0x9d, 0x9f]"
proof -
  have pad: "md5_pad [0x41, 0x42, 0x43, 0x44, 0x45, 0x46, 0x47, 0x48, 0x49, 0x4a, 0x4b, 0x4c,
                     0x4d, 0x4e, 0x4f, 0x50, 0x51, 0x52, 0x53, 0x54, 0x55, 0x56, 0x57, 0x58,
                     0x59, 0x5a, 0x61, 0x62, 0x63, 0x64, 0x65, 0x66, 0x67, 0x68, 0x69, 0x6a,
                     0x6b, 0x6c, 0x6d, 0x6e, 0x6f, 0x70, 0x71, 0x72, 0x73, 0x74, 0x75, 0x76,
                     0x77, 0x78, 0x79, 0x7a, 0x30, 0x31, 0x32, 0x33, 0x34, 0x35, 0x36, 0x37,
                     0x38, 0x39] =
      [0x41, 0x42, 0x43, 0x44, 0x45, 0x46, 0x47, 0x48, 0x49, 0x4a, 0x4b, 0x4c,
       0x4d, 0x4e, 0x4f, 0x50, 0x51, 0x52, 0x53, 0x54, 0x55, 0x56, 0x57, 0x58,
       0x59, 0x5a, 0x61, 0x62, 0x63, 0x64, 0x65, 0x66, 0x67, 0x68, 0x69, 0x6a,
       0x6b, 0x6c, 0x6d, 0x6e, 0x6f, 0x70, 0x71, 0x72, 0x73, 0x74, 0x75, 0x76,
       0x77, 0x78, 0x79, 0x7a, 0x30, 0x31, 0x32, 0x33, 0x34, 0x35, 0x36, 0x37,
       0x38, 0x39, 0x80, 0x00, 0x00, 0x00, 0x00, 0x00, 0x00, 0x00, 0x00, 0x00,
       0x00, 0x00, 0x00, 0x00, 0x00, 0x00, 0x00, 0x00, 0x00, 0x00, 0x00, 0x00,
       0x00, 0x00, 0x00, 0x00, 0x00, 0x00, 0x00, 0x00, 0x00, 0x00, 0x00, 0x00,
       0x00, 0x00, 0x00, 0x00, 0x00, 0x00, 0x00, 0x00, 0x00, 0x00, 0x00, 0x00,
       0x00, 0x00, 0x00, 0x00, 0x00, 0x00, 0x00, 0x00, 0x00, 0x00, 0x00, 0x00,
       0xf0, 0x01, 0x00, 0x00, 0x00, 0x00, 0x00, 0x00]"
    by (simp add: md5_pad_def upt_rec replicate_numeral_unfold)
  have blocks: "map (\<lambda>blk. map le32 (chunks 4 blk)) (chunks 64
      [0x41, 0x42, 0x43, 0x44, 0x45, 0x46, 0x47, 0x48, 0x49, 0x4a, 0x4b, 0x4c,
       0x4d, 0x4e, 0x4f, 0x50, 0x51, 0x52, 0x53, 0x54, 0x55, 0x56, 0x57, 0x58,
       0x59, 0x5a, 0x61, 0x62, 0x63, 0x64, 0x65, 0x66, 0x67, 0x68, 0x69, 0x6a,
       0x6b, 0x6c, 0x6d, 0x6e, 0x6f, 0x70, 0x71, 0x72, 0x73, 0x74, 0x75, 0x76,
       0x77, 0x78, 0x79, 0x7a, 0x30, 0x31, 0x32, 0x33, 0x34, 0x35, 0x36, 0x37,
       0x38, 0x39, 0x80, 0x00, 0x00, 0x00, 0x00, 0x00, 0x00, 0x00, 0x00, 0x00,
       0x00, 0x00, 0x00, 0x00, 0x00, 0x00, 0x00, 0x00, 0x00, 0x00, 0x00, 0x00,
       0x00, 0x00, 0x00, 0x00, 0x00, 0x00, 0x00, 0x00, 0x00, 0x00, 0x00, 0x00,
       0x00, 0x00, 0x00, 0x00, 0x00, 0x00, 0x00, 0x00, 0x00, 0x00, 0x00, 0x00,
       0x00, 0x00, 0x00, 0x00, 0x00, 0x00, 0x00, 0x00, 0x00, 0x00, 0x00, 0x00,
       0xf0, 0x01, 0x00, 0x00, 0x00, 0x00, 0x00, 0x00]) =
       [[0x44434241, 0x48474645, 0x4c4b4a49, 0x504f4e4d,
         0x54535251, 0x58575655, 0x62615a59, 0x66656463,
         0x6a696867, 0x6e6d6c6b, 0x7271706f, 0x76757473,
         0x7a797877, 0x33323130, 0x37363534, 0x00803938],
        [0x00000000, 0x00000000, 0x00000000, 0x00000000,
         0x00000000, 0x00000000, 0x00000000, 0x00000000,
         0x00000000, 0x00000000, 0x00000000, 0x00000000,
         0x00000000, 0x00000000, 0x000001f0, 0x00000000]]"
    by (simp add: le32_def)
  show ?thesis
    by (simp only: md5_def pad blocks foldl.simps md5_block_alphanumeric_0 md5_block_alphanumeric_1 prod.case)
       (simp add: le32_octets_def upt_rec)
qed

lemma md5_hex_alphanumeric:
  "map_sum id (Hex_stringify \<circ> md5) (Utf8_parse (ascii ''ABCDEFGHIJKLMNOPQRSTUVWXYZabcdefghijklmnopqrstuvwxyz0123456789'')) =
     Inr (ascii ''d174ab98d277d9f5a5611c2c9f419d9f'')"
proof -
  have octets: "Utf8_parse (ascii ''ABCDEFGHIJKLMNOPQRSTUVWXYZabcdefghijklmnopqrstuvwxyz0123456789'') =
      Inr [0x41, 0x42, 0x43, 0x44, 0x45, 0x46, 0x47, 0x48, 0x49, 0x4a, 0x4b, 0x4c,
           0x4d, 0x4e, 0x4f, 0x50, 0x51, 0x52, 0x53, 0x54, 0x55, 0x56, 0x57, 0x58,
           0x59, 0x5a, 0x61, 0x62, 0x63, 0x64, 0x65, 0x66, 0x67, 0x68, 0x69, 0x6a,
           0x6b, 0x6c, 0x6d, 0x6e, 0x6f, 0x70, 0x71, 0x72, 0x73, 0x74, 0x75, 0x76,
           0x77, 0x78, 0x79, 0x7a, 0x30, 0x31, 0x32, 0x33, 0x34, 0x35, 0x36, 0x37,
           0x38, 0x39]"
    by (simp add: ascii_def is_low_surrogate_def is_high_surrogate_def utf8_octets_def
        surrogate_pair_def)
  have hex: "Hex_stringify [0xd1, 0x74, 0xab, 0x98, 0xd2, 0x77, 0xd9, 0xf5, 0xa5, 0x61, 0x1c, 0x2c,
                         0x9f, 0x41, 0x9d, 0x9f] =
      ascii ''d174ab98d277d9f5a5611c2c9f419d9f''"
    by (simp add: Hex_stringify_digits ascii_def)
  show ?thesis
    by (simp only: octets map_sum.simps comp_apply md5_digest_alphanumeric hex id_apply)
qed

lemma md5_block_digits_0:
  "md5_block (0x67452301, 0xefcdab89, 0x98badcfe, 0x10325476)
     [0x34333231, 0x38373635, 0x32313039, 0x36353433,
      0x30393837, 0x34333231, 0x38373635, 0x32313039,
      0x36353433, 0x30393837, 0x34333231, 0x38373635,
      0x32313039, 0x36353433, 0x30393837, 0x34333231] =
   (0xc88d8bec, 0xa4a0dc8b, 0xe9edef99, 0xb0d18d1d)"
  unfolding md5_block_def md5_rounds
  by (simp add: md5_K_def md5_S_def rotl32_def upt_rec)

lemma md5_block_digits_1:
  "md5_block (0xc88d8bec, 0xa4a0dc8b, 0xe9edef99, 0xb0d18d1d)
     [0x38373635, 0x32313039, 0x36353433, 0x30393837,
      0x00000080, 0x00000000, 0x00000000, 0x00000000,
      0x00000000, 0x00000000, 0x00000000, 0x00000000,
      0x00000000, 0x00000000, 0x00000280, 0x00000000] =
   (0xa2f4ed57, 0x55c9e32b, 0x2eda49ac, 0x7ab60721)"
  unfolding md5_block_def md5_rounds
  by (simp add: md5_K_def md5_S_def rotl32_def upt_rec)

lemma md5_digest_digits:
  "md5 [0x31, 0x32, 0x33, 0x34, 0x35, 0x36, 0x37, 0x38, 0x39, 0x30, 0x31, 0x32,
       0x33, 0x34, 0x35, 0x36, 0x37, 0x38, 0x39, 0x30, 0x31, 0x32, 0x33, 0x34,
       0x35, 0x36, 0x37, 0x38, 0x39, 0x30, 0x31, 0x32, 0x33, 0x34, 0x35, 0x36,
       0x37, 0x38, 0x39, 0x30, 0x31, 0x32, 0x33, 0x34, 0x35, 0x36, 0x37, 0x38,
       0x39, 0x30, 0x31, 0x32, 0x33, 0x34, 0x35, 0x36, 0x37, 0x38, 0x39, 0x30,
       0x31, 0x32, 0x33, 0x34, 0x35, 0x36, 0x37, 0x38, 0x39, 0x30, 0x31, 0x32,
       0x33, 0x34, 0x35, 0x36, 0x37, 0x38, 0x39, 0x30] =
     [0x57, 0xed, 0xf4, 0xa2, 0x2b, 0xe3, 0xc9, 0x55, 0xac, 0x49, 0xda, 0x2e,
      0x21, 0x07, 0xb6, 0x7a]"
proof -
  have pad: "md5_pad [0x31, 0x32, 0x33, 0x34, 0x35, 0x36, 0x37, 0x38, 0x39, 0x30, 0x31, 0x32,
                     0x33, 0x34, 0x35, 0x36, 0x37, 0x38, 0x39, 0x30, 0x31, 0x32, 0x33, 0x34,
                     0x35, 0x36, 0x37, 0x38, 0x39, 0x30, 0x31, 0x32, 0x33, 0x34, 0x35, 0x36,
                     0x37, 0x38, 0x39, 0x30, 0x31, 0x32, 0x33, 0x34, 0x35, 0x36, 0x37, 0x38,
                     0x39, 0x30, 0x31, 0x32, 0x33, 0x34, 0x35, 0x36, 0x37, 0x38, 0x39, 0x30,
                     0x31, 0x32, 0x33, 0x34, 0x35, 0x36, 0x37, 0x38, 0x39, 0x30, 0x31, 0x32,
                     0x33, 0x34, 0x35, 0x36, 0x37, 0x38, 0x39, 0x30] =
      [0x31, 0x32, 0x33, 0x34, 0x35, 0x36, 0x37, 0x38, 0x39, 0x30, 0x31, 0x32,
       0x33, 0x34, 0x35, 0x36, 0x37, 0x38, 0x39, 0x30, 0x31, 0x32, 0x33, 0x34,
       0x35, 0x36, 0x37, 0x38, 0x39, 0x30, 0x31, 0x32, 0x33, 0x34, 0x35, 0x36,
       0x37, 0x38, 0x39, 0x30, 0x31, 0x32, 0x33, 0x34, 0x35, 0x36, 0x37, 0x38,
       0x39, 0x30, 0x31, 0x32, 0x33, 0x34, 0x35, 0x36, 0x37, 0x38, 0x39, 0x30,
       0x31, 0x32, 0x33, 0x34, 0x35, 0x36, 0x37, 0x38, 0x39, 0x30, 0x31, 0x32,
       0x33, 0x34, 0x35, 0x36, 0x37, 0x38, 0x39, 0x30, 0x80, 0x00, 0x00, 0x00,
       0x00, 0x00, 0x00, 0x00, 0x00, 0x00, 0x00, 0x00, 0x00, 0x00, 0x00, 0x00,
       0x00, 0x00, 0x00, 0x00, 0x00, 0x00, 0x00, 0x00, 0x00, 0x00, 0x00, 0x00,
       0x00, 0x00, 0x00, 0x00, 0x00, 0x00, 0x00, 0x00, 0x00, 0x00, 0x00, 0x00,
       0x80, 0x02, 0x00, 0x00, 0x00, 0x00, 0x00, 0x00]"
    by (simp add: md5_pad_def upt_rec replicate_numeral_unfold)
  have blocks: "map (\<lambda>blk. map le32 (chunks 4 blk)) (chunks 64
      [0x31, 0x32, 0x33, 0x34, 0x35, 0x36, 0x37, 0x38, 0x39, 0x30, 0x31, 0x32,
       0x33, 0x34, 0x35, 0x36, 0x37, 0x38, 0x39, 0x30, 0x31, 0x32, 0x33, 0x34,
       0x35, 0x36, 0x37, 0x38, 0x39, 0x30, 0x31, 0x32, 0x33, 0x34, 0x35, 0x36,
       0x37, 0x38, 0x39, 0x30, 0x31, 0x32, 0x33, 0x34, 0x35, 0x36, 0x37, 0x38,
       0x39, 0x30, 0x31, 0x32, 0x33, 0x34, 0x35, 0x36, 0x37, 0x38, 0x39, 0x30,
       0x31, 0x32, 0x33, 0x34, 0x35, 0x36, 0x37, 0x38, 0x39, 0x30, 0x31, 0x32,
       0x33, 0x34, 0x35, 0x36, 0x37, 0x38, 0x39, 0x30, 0x80, 0x00, 0x00, 0x00,
       0x00, 0x00, 0x00, 0x00, 0x00, 0x00, 0x00, 0x00, 0x00, 0x00, 0x00, 0x00,
       0x00, 0x00, 0x00, 0x00, 0x00, 0x00, 0x00, 0x00, 0x00, 0x00, 0x00, 0x00,
       0x00, 0x00, 0x00, 0x00, 0x00, 0x00, 0x00, 0x00, 0x00, 0x00, 0x00, 0x00,
       0x80, 0x02, 0x00, 0x00, 0x00, 0x00, 0x00, 0x00]) =
       [[0x34333231, 0x38373635, 0x32313039, 0x36353433,
         0x30393837, 0x34333231, 0x38373635, 0x32313039,
         0x36353433, 0x30393837, 0x34333231, 0x38373635,
         0x32313039, 0x36353433, 0x30393837, 0x34333231],
        [0x38373635, 0x32313039, 0x36353433, 0x30393837,
         0x00000080, 0x00000000, 0x00000000, 0x00000000,
         0x00000000, 0x00000000, 0x00000000, 0x00000000,
         0x00000000, 0x00000000, 0x00000280, 0x00000000]]"
    by (simp add: le32_def)
  show ?thesis
    by (simp only: md5_def pad blocks foldl.simps md5_block_digits_0 md5_block_digits_1 prod.case)
       (simp add: le32_octets_def upt_rec)
qed

lemma md5_hex_digits:
  "map_sum id (Hex_stringify \<circ> md5) (Utf8_parse (ascii ''12345678901234567890123456789012345678901234567890123456789012345678901234567890'')) =
     Inr (ascii ''57edf4a22be3c955ac49da2e2107b67a'')"
proof -
  have octets: "Utf8_parse (ascii ''12345678901234567890123456789012345678901234567890123456789012345678901234567890'') =
      Inr [0x31, 0x32, 0x33, 0x34, 0x35, 0x36, 0x37, 0x38, 0x39, 0x30, 0x31, 0x32,
           0x33, 0x34, 0x35, 0x36, 0x37, 0x38, 0x39, 0x30, 0x31, 0x32, 0x33, 0x34,
           0x35, 0x36, 0x37, 0x38, 0x39, 0x30, 0x31, 0x32, 0x33, 0x34, 0x35, 0x36,
           0x37, 0x38, 0x39, 0x30, 0x31, 0x32, 0x33, 0x34, 0x35, 0x36, 0x37, 0x38,
           0x39, 0x30, 0x31, 0x32, 0x33, 0x34, 0x35, 0x36, 0x37, 0x38, 0x39, 0x30,
           0x31, 0x32, 0x33, 0x34, 0x35, 0x36, 0x37, 0x38, 0x39, 0x30, 0x31, 0x32,
           0x33, 0x34, 0x35, 0x36, 0x37, 0x38, 0x39, 0x30]"
    by (simp add: ascii_def is_low_surrogate_def is_high_surrogate_def utf8_octets_def
        surrogate_pair_def)
  have hex: "Hex_stringify [0x57, 0xed, 0xf4, 0xa2, 0x2b, 0xe3, 0xc9, 0x55, 0xac, 0x49, 0xda, 0x2e,
                         0x21, 0x07, 0xb6, 0x7a] =
      ascii ''57edf4a22be3c955ac49da2e2107b67a''"
    by (simp add: Hex_stringify_digits ascii_def)
  show ?thesis
    by (simp only: octets map_sum.simps comp_apply md5_digest_digits hex id_apply)
qed

lemma md5_block_fifty_six_0:
  "md5_block (0x67452301, 0xefcdab89, 0x98badcfe, 0x10325476)
     [0x61616161, 0x61616161, 0x61616161, 0x61616161,
      0x61616161, 0x61616161, 0x61616161, 0x61616161,
      0x61616161, 0x61616161, 0x61616161, 0x61616161,
      0x61616161, 0x61616161, 0x00000080, 0x00000000] =
   (0x3bf7335f, 0x122cdb68, 0xb14e7896, 0xf4455e95)"
  unfolding md5_block_def md5_rounds
  by (simp add: md5_K_def md5_S_def rotl32_def upt_rec)

lemma md5_block_fifty_six_1:
  "md5_block (0x3bf7335f, 0x122cdb68, 0xb14e7896, 0xf4455e95)
     [0x00000000, 0x00000000, 0x00000000, 0x00000000,
      0x00000000, 0x00000000, 0x00000000, 0x00000000,
      0x00000000, 0x00000000, 0x00000000, 0x00000000,
      0x00000000, 0x00000000, 0x000001c0, 0x00000000] =
   (0xc78a0c3b, 0xb028f803, 0x70196c4c, 0x1872d106)"
  unfolding md5_block_def md5_rounds
  by (simp add: md5_K_def md5_S_def rotl32_def upt_rec)

lemma md5_digest_fifty_six:
  "md5 [0x61, 0x61, 0x61, 0x61, 0x61, 0x61, 0x61, 0x61, 0x61, 0x61, 0x61, 0x61,
       0x61, 0x61, 0x61, 0x61, 0x61, 0x61, 0x61, 0x61, 0x61, 0x61, 0x61, 0x61,
       0x61, 0x61, 0x61, 0x61, 0x61, 0x61, 0x61, 0x61, 0x61, 0x61, 0x61, 0x61,
       0x61, 0x61, 0x61, 0x61, 0x61, 0x61, 0x61, 0x61, 0x61, 0x61, 0x61, 0x61,
       0x61, 0x61, 0x61, 0x61, 0x61, 0x61, 0x61, 0x61] =
     [0x3b, 0x0c, 0x8a, 0xc7, 0x03, 0xf8, 0x28, 0xb0, 0x4c, 0x6c, 0x19, 0x70,
      0x06, 0xd1, 0x72, 0x18]"
proof -
  have pad: "md5_pad [0x61, 0x61, 0x61, 0x61, 0x61, 0x61, 0x61, 0x61, 0x61, 0x61, 0x61, 0x61,
                     0x61, 0x61, 0x61, 0x61, 0x61, 0x61, 0x61, 0x61, 0x61, 0x61, 0x61, 0x61,
                     0x61, 0x61, 0x61, 0x61, 0x61, 0x61, 0x61, 0x61, 0x61, 0x61, 0x61, 0x61,
                     0x61, 0x61, 0x61, 0x61, 0x61, 0x61, 0x61, 0x61, 0x61, 0x61, 0x61, 0x61,
                     0x61, 0x61, 0x61, 0x61, 0x61, 0x61, 0x61, 0x61] =
      [0x61, 0x61, 0x61, 0x61, 0x61, 0x61, 0x61, 0x61, 0x61, 0x61, 0x61, 0x61,
       0x61, 0x61, 0x61, 0x61, 0x61, 0x61, 0x61, 0x61, 0x61, 0x61, 0x61, 0x61,
       0x61, 0x61, 0x61, 0x61, 0x61, 0x61, 0x61, 0x61, 0x61, 0x61, 0x61, 0x61,
       0x61, 0x61, 0x61, 0x61, 0x61, 0x61, 0x61, 0x61, 0x61, 0x61, 0x61, 0x61,
       0x61, 0x61, 0x61, 0x61, 0x61, 0x61, 0x61, 0x61, 0x80, 0x00, 0x00, 0x00,
       0x00, 0x00, 0x00, 0x00, 0x00, 0x00, 0x00, 0x00, 0x00, 0x00, 0x00, 0x00,
       0x00, 0x00, 0x00, 0x00, 0x00, 0x00, 0x00, 0x00, 0x00, 0x00, 0x00, 0x00,
       0x00, 0x00, 0x00, 0x00, 0x00, 0x00, 0x00, 0x00, 0x00, 0x00, 0x00, 0x00,
       0x00, 0x00, 0x00, 0x00, 0x00, 0x00, 0x00, 0x00, 0x00, 0x00, 0x00, 0x00,
       0x00, 0x00, 0x00, 0x00, 0x00, 0x00, 0x00, 0x00, 0x00, 0x00, 0x00, 0x00,
       0xc0, 0x01, 0x00, 0x00, 0x00, 0x00, 0x00, 0x00]"
    by (simp add: md5_pad_def upt_rec replicate_numeral_unfold)
  have blocks: "map (\<lambda>blk. map le32 (chunks 4 blk)) (chunks 64
      [0x61, 0x61, 0x61, 0x61, 0x61, 0x61, 0x61, 0x61, 0x61, 0x61, 0x61, 0x61,
       0x61, 0x61, 0x61, 0x61, 0x61, 0x61, 0x61, 0x61, 0x61, 0x61, 0x61, 0x61,
       0x61, 0x61, 0x61, 0x61, 0x61, 0x61, 0x61, 0x61, 0x61, 0x61, 0x61, 0x61,
       0x61, 0x61, 0x61, 0x61, 0x61, 0x61, 0x61, 0x61, 0x61, 0x61, 0x61, 0x61,
       0x61, 0x61, 0x61, 0x61, 0x61, 0x61, 0x61, 0x61, 0x80, 0x00, 0x00, 0x00,
       0x00, 0x00, 0x00, 0x00, 0x00, 0x00, 0x00, 0x00, 0x00, 0x00, 0x00, 0x00,
       0x00, 0x00, 0x00, 0x00, 0x00, 0x00, 0x00, 0x00, 0x00, 0x00, 0x00, 0x00,
       0x00, 0x00, 0x00, 0x00, 0x00, 0x00, 0x00, 0x00, 0x00, 0x00, 0x00, 0x00,
       0x00, 0x00, 0x00, 0x00, 0x00, 0x00, 0x00, 0x00, 0x00, 0x00, 0x00, 0x00,
       0x00, 0x00, 0x00, 0x00, 0x00, 0x00, 0x00, 0x00, 0x00, 0x00, 0x00, 0x00,
       0xc0, 0x01, 0x00, 0x00, 0x00, 0x00, 0x00, 0x00]) =
       [[0x61616161, 0x61616161, 0x61616161, 0x61616161,
         0x61616161, 0x61616161, 0x61616161, 0x61616161,
         0x61616161, 0x61616161, 0x61616161, 0x61616161,
         0x61616161, 0x61616161, 0x00000080, 0x00000000],
        [0x00000000, 0x00000000, 0x00000000, 0x00000000,
         0x00000000, 0x00000000, 0x00000000, 0x00000000,
         0x00000000, 0x00000000, 0x00000000, 0x00000000,
         0x00000000, 0x00000000, 0x000001c0, 0x00000000]]"
    by (simp add: le32_def)
  show ?thesis
    by (simp only: md5_def pad blocks foldl.simps md5_block_fifty_six_0 md5_block_fifty_six_1 prod.case)
       (simp add: le32_octets_def upt_rec)
qed

lemma md5_hex_fifty_six:
  "map_sum id (Hex_stringify \<circ> md5) (Utf8_parse (ascii ''aaaaaaaaaaaaaaaaaaaaaaaaaaaaaaaaaaaaaaaaaaaaaaaaaaaaaaaa'')) =
     Inr (ascii ''3b0c8ac703f828b04c6c197006d17218'')"
proof -
  have octets: "Utf8_parse (ascii ''aaaaaaaaaaaaaaaaaaaaaaaaaaaaaaaaaaaaaaaaaaaaaaaaaaaaaaaa'') =
      Inr [0x61, 0x61, 0x61, 0x61, 0x61, 0x61, 0x61, 0x61, 0x61, 0x61, 0x61, 0x61,
           0x61, 0x61, 0x61, 0x61, 0x61, 0x61, 0x61, 0x61, 0x61, 0x61, 0x61, 0x61,
           0x61, 0x61, 0x61, 0x61, 0x61, 0x61, 0x61, 0x61, 0x61, 0x61, 0x61, 0x61,
           0x61, 0x61, 0x61, 0x61, 0x61, 0x61, 0x61, 0x61, 0x61, 0x61, 0x61, 0x61,
           0x61, 0x61, 0x61, 0x61, 0x61, 0x61, 0x61, 0x61]"
    by (simp add: ascii_def is_low_surrogate_def is_high_surrogate_def utf8_octets_def
        surrogate_pair_def)
  have hex: "Hex_stringify [0x3b, 0x0c, 0x8a, 0xc7, 0x03, 0xf8, 0x28, 0xb0, 0x4c, 0x6c, 0x19, 0x70,
                         0x06, 0xd1, 0x72, 0x18] =
      ascii ''3b0c8ac703f828b04c6c197006d17218''"
    by (simp add: Hex_stringify_digits ascii_def)
  show ?thesis
    by (simp only: octets map_sum.simps comp_apply md5_digest_fifty_six hex id_apply)
qed

lemma md5_block_unicode_0:
  "md5_block (0x67452301, 0xefcdab89, 0x98badcfe, 0x10325476)
     [0xb8e4a9c3, 0x989ff0ad, 0x00008080, 0x00000000,
      0x00000000, 0x00000000, 0x00000000, 0x00000000,
      0x00000000, 0x00000000, 0x00000000, 0x00000000,
      0x00000000, 0x00000000, 0x00000048, 0x00000000] =
   (0xcce87028, 0x433ad7e7, 0xd67b83d7, 0xeb6bd81a)"
  unfolding md5_block_def md5_rounds
  by (simp add: md5_K_def md5_S_def rotl32_def upt_rec)

lemma md5_digest_unicode:
  "md5 [0xc3, 0xa9, 0xe4, 0xb8, 0xad, 0xf0, 0x9f, 0x98, 0x80] =
     [0x28, 0x70, 0xe8, 0xcc, 0xe7, 0xd7, 0x3a, 0x43, 0xd7, 0x83, 0x7b, 0xd6,
      0x1a, 0xd8, 0x6b, 0xeb]"
proof -
  have pad: "md5_pad [0xc3, 0xa9, 0xe4, 0xb8, 0xad, 0xf0, 0x9f, 0x98, 0x80] =
      [0xc3, 0xa9, 0xe4, 0xb8, 0xad, 0xf0, 0x9f, 0x98, 0x80, 0x80, 0x00, 0x00,
       0x00, 0x00, 0x00, 0x00, 0x00, 0x00, 0x00, 0x00, 0x00, 0x00, 0x00, 0x00,
       0x00, 0x00, 0x00, 0x00, 0x00, 0x00, 0x00, 0x00, 0x00, 0x00, 0x00, 0x00,
       0x00, 0x00, 0x00, 0x00, 0x00, 0x00, 0x00, 0x00, 0x00, 0x00, 0x00, 0x00,
       0x00, 0x00, 0x00, 0x00, 0x00, 0x00, 0x00, 0x00, 0x48, 0x00, 0x00, 0x00,
       0x00, 0x00, 0x00, 0x00]"
    by (simp add: md5_pad_def upt_rec replicate_numeral_unfold)
  have blocks: "map (\<lambda>blk. map le32 (chunks 4 blk)) (chunks 64
      [0xc3, 0xa9, 0xe4, 0xb8, 0xad, 0xf0, 0x9f, 0x98, 0x80, 0x80, 0x00, 0x00,
       0x00, 0x00, 0x00, 0x00, 0x00, 0x00, 0x00, 0x00, 0x00, 0x00, 0x00, 0x00,
       0x00, 0x00, 0x00, 0x00, 0x00, 0x00, 0x00, 0x00, 0x00, 0x00, 0x00, 0x00,
       0x00, 0x00, 0x00, 0x00, 0x00, 0x00, 0x00, 0x00, 0x00, 0x00, 0x00, 0x00,
       0x00, 0x00, 0x00, 0x00, 0x00, 0x00, 0x00, 0x00, 0x48, 0x00, 0x00, 0x00,
       0x00, 0x00, 0x00, 0x00]) =
       [[0xb8e4a9c3, 0x989ff0ad, 0x00008080, 0x00000000,
         0x00000000, 0x00000000, 0x00000000, 0x00000000,
         0x00000000, 0x00000000, 0x00000000, 0x00000000,
         0x00000000, 0x00000000, 0x00000048, 0x00000000]]"
    by (simp add: le32_def)
  show ?thesis
    by (simp only: md5_def pad blocks foldl.simps md5_block_unicode_0 prod.case)
       (simp add: le32_octets_def upt_rec)
qed

lemma md5_hex_unicode:
  "map_sum id (Hex_stringify \<circ> md5) (Utf8_parse ([0xe9, 0x4e2d, 0xd83d, 0xde00])) =
     Inr (ascii ''2870e8cce7d73a43d7837bd61ad86beb'')"
proof -
  have octets: "Utf8_parse ([0xe9, 0x4e2d, 0xd83d, 0xde00]) =
      Inr [0xc3, 0xa9, 0xe4, 0xb8, 0xad, 0xf0, 0x9f, 0x98, 0x80]"
    by (simp add: ascii_def is_low_surrogate_def is_high_surrogate_def utf8_octets_def
        surrogate_pair_def)
  have hex: "Hex_stringify [0x28, 0x70, 0xe8, 0xcc, 0xe7, 0xd7, 0x3a, 0x43, 0xd7, 0x83, 0x7b, 0xd6,
                         0x1a, 0xd8, 0x6b, 0xeb] =
      ascii ''2870e8cce7d73a43d7837bd61ad86beb''"
    by (simp add: Hex_stringify_digits ascii_def)
  show ?thesis
    by (simp only: octets map_sum.simps comp_apply md5_digest_unicode hex id_apply)
qed

text \<open>The message of the example of the signer: its query, then its salt.\<close>

lemma md5_block_example_0:
  "md5_block (0x67452301, 0xefcdab89, 0x98badcfe, 0x10325476)
     [0x3d726162, 0x26343135, 0x3d7a6162, 0x39313931,
      0x26303138, 0x3d6f6f66, 0x26343131, 0x3d737477,
      0x32303731, 0x31343032, 0x61653936, 0x31626431,
      0x66613432, 0x30376333, 0x37343236, 0x33393634] =
   (0xa5c81487, 0x421625e7, 0x63afd5a9, 0xb5cbed02)"
  unfolding md5_block_def md5_rounds
  by (simp add: md5_K_def md5_S_def rotl32_def upt_rec)

lemma md5_block_example_1:
  "md5_block (0xa5c81487, 0x421625e7, 0x63afd5a9, 0xb5cbed02)
     [0x30376166, 0x66346634, 0x00803866, 0x00000000,
      0x00000000, 0x00000000, 0x00000000, 0x00000000,
      0x00000000, 0x00000000, 0x00000000, 0x00000000,
      0x00000000, 0x00000000, 0x00000250, 0x00000000] =
   (0xadfd4961, 0x8c6971f5, 0x67a5e6a7, 0xeed05c26)"
  unfolding md5_block_def md5_rounds
  by (simp add: md5_K_def md5_S_def rotl32_def upt_rec)

lemma md5_digest_example:
  "md5 [0x62, 0x61, 0x72, 0x3d, 0x35, 0x31, 0x34, 0x26, 0x62, 0x61, 0x7a, 0x3d,
       0x31, 0x39, 0x31, 0x39, 0x38, 0x31, 0x30, 0x26, 0x66, 0x6f, 0x6f, 0x3d,
       0x31, 0x31, 0x34, 0x26, 0x77, 0x74, 0x73, 0x3d, 0x31, 0x37, 0x30, 0x32,
       0x32, 0x30, 0x34, 0x31, 0x36, 0x39, 0x65, 0x61, 0x31, 0x64, 0x62, 0x31,
       0x32, 0x34, 0x61, 0x66, 0x33, 0x63, 0x37, 0x30, 0x36, 0x32, 0x34, 0x37,
       0x34, 0x36, 0x39, 0x33, 0x66, 0x61, 0x37, 0x30, 0x34, 0x66, 0x34, 0x66,
       0x66, 0x38] =
     [0x61, 0x49, 0xfd, 0xad, 0xf5, 0x71, 0x69, 0x8c, 0xa7, 0xe6, 0xa5, 0x67,
      0x26, 0x5c, 0xd0, 0xee]"
proof -
  have pad: "md5_pad [0x62, 0x61, 0x72, 0x3d, 0x35, 0x31, 0x34, 0x26, 0x62, 0x61, 0x7a, 0x3d,
                     0x31, 0x39, 0x31, 0x39, 0x38, 0x31, 0x30, 0x26, 0x66, 0x6f, 0x6f, 0x3d,
                     0x31, 0x31, 0x34, 0x26, 0x77, 0x74, 0x73, 0x3d, 0x31, 0x37, 0x30, 0x32,
                     0x32, 0x30, 0x34, 0x31, 0x36, 0x39, 0x65, 0x61, 0x31, 0x64, 0x62, 0x31,
                     0x32, 0x34, 0x61, 0x66, 0x33, 0x63, 0x37, 0x30, 0x36, 0x32, 0x34, 0x37,
                     0x34, 0x36, 0x39, 0x33, 0x66, 0x61, 0x37, 0x30, 0x34, 0x66, 0x34, 0x66,
                     0x66, 0x38] =
      [0x62, 0x61, 0x72, 0x3d, 0x35, 0x31, 0x34, 0x26, 0x62, 0x61, 0x7a, 0x3d,
       0x31, 0x39, 0x31, 0x39, 0x38, 0x31, 0x30, 0x26, 0x66, 0x6f, 0x6f, 0x3d,
       0x31, 0x31, 0x34, 0x26, 0x77, 0x74, 0x73, 0x3d, 0x31, 0x37, 0x30, 0x32,
       0x32, 0x30, 0x34, 0x31, 0x36, 0x39, 0x65, 0x61, 0x31, 0x64, 0x62, 0x31,
       0x32, 0x34, 0x61, 0x66, 0x33, 0x63, 0x37, 0x30, 0x36, 0x32, 0x34, 0x37,
       0x34, 0x36, 0x39, 0x33, 0x66, 0x61, 0x37, 0x30, 0x34, 0x66, 0x34, 0x66,
       0x66, 0x38, 0x80, 0x00, 0x00, 0x00, 0x00, 0x00, 0x00, 0x00, 0x00, 0x00,
       0x00, 0x00, 0x00, 0x00, 0x00, 0x00, 0x00, 0x00, 0x00, 0x00, 0x00, 0x00,
       0x00, 0x00, 0x00, 0x00, 0x00, 0x00, 0x00, 0x00, 0x00, 0x00, 0x00, 0x00,
       0x00, 0x00, 0x00, 0x00, 0x00, 0x00, 0x00, 0x00, 0x00, 0x00, 0x00, 0x00,
       0x50, 0x02, 0x00, 0x00, 0x00, 0x00, 0x00, 0x00]"
    by (simp add: md5_pad_def upt_rec replicate_numeral_unfold)
  have blocks: "map (\<lambda>blk. map le32 (chunks 4 blk)) (chunks 64
      [0x62, 0x61, 0x72, 0x3d, 0x35, 0x31, 0x34, 0x26, 0x62, 0x61, 0x7a, 0x3d,
       0x31, 0x39, 0x31, 0x39, 0x38, 0x31, 0x30, 0x26, 0x66, 0x6f, 0x6f, 0x3d,
       0x31, 0x31, 0x34, 0x26, 0x77, 0x74, 0x73, 0x3d, 0x31, 0x37, 0x30, 0x32,
       0x32, 0x30, 0x34, 0x31, 0x36, 0x39, 0x65, 0x61, 0x31, 0x64, 0x62, 0x31,
       0x32, 0x34, 0x61, 0x66, 0x33, 0x63, 0x37, 0x30, 0x36, 0x32, 0x34, 0x37,
       0x34, 0x36, 0x39, 0x33, 0x66, 0x61, 0x37, 0x30, 0x34, 0x66, 0x34, 0x66,
       0x66, 0x38, 0x80, 0x00, 0x00, 0x00, 0x00, 0x00, 0x00, 0x00, 0x00, 0x00,
       0x00, 0x00, 0x00, 0x00, 0x00, 0x00, 0x00, 0x00, 0x00, 0x00, 0x00, 0x00,
       0x00, 0x00, 0x00, 0x00, 0x00, 0x00, 0x00, 0x00, 0x00, 0x00, 0x00, 0x00,
       0x00, 0x00, 0x00, 0x00, 0x00, 0x00, 0x00, 0x00, 0x00, 0x00, 0x00, 0x00,
       0x50, 0x02, 0x00, 0x00, 0x00, 0x00, 0x00, 0x00]) =
       [[0x3d726162, 0x26343135, 0x3d7a6162, 0x39313931,
         0x26303138, 0x3d6f6f66, 0x26343131, 0x3d737477,
         0x32303731, 0x31343032, 0x61653936, 0x31626431,
         0x66613432, 0x30376333, 0x37343236, 0x33393634],
        [0x30376166, 0x66346634, 0x00803866, 0x00000000,
         0x00000000, 0x00000000, 0x00000000, 0x00000000,
         0x00000000, 0x00000000, 0x00000000, 0x00000000,
         0x00000000, 0x00000000, 0x00000250, 0x00000000]]"
    by (simp add: le32_def)
  show ?thesis
    by (simp only: md5_def pad blocks foldl.simps md5_block_example_0 md5_block_example_1 prod.case)
       (simp add: le32_octets_def upt_rec)
qed


text \<open>
  Claim C3. \<open>wbiSign\<close> returns a string exactly when the query exists and
  \<open>query + salt\<close> has UTF-8 octets for the hasher; the string is then the query,
  \<open>&w_rid=\<close> and the MD5 digest of those octets in hexadecimal. Every such rendering is
  32 characters from \<open>0-9a-f\<close>: each octet of the digest gives its high digit, then its
  low digit, from \<open>0123456789abcdef\<close>. The digest is MD5: on the seven messages of the
  test suite of RFC 1321, on 56 times \<open>a\<close> and on a message outside ASCII, the hasher
  and the rendering give the digest that the RFC and a reference MD5 over UTF-8 give.
\<close>

theorem wbiSign_appends_w_rid:
  "(\<forall>r. snd (wbiSign clock_ms params imgKey subKey) = Inr r \<longleftrightarrow>
       (\<exists>query octets.
          wbi_query (fst (wbiSign clock_ms params imgKey subKey)) = Inr query
          \<and> Utf8_parse (query @ wbi_salt imgKey subKey) = Inr octets
          \<and> r = query @ ascii ''&w_rid='' @ Hex_stringify (md5 octets)))
   \<and> (\<forall>octets. length (Hex_stringify (md5 octets)) = 32
         \<and> set (Hex_stringify (md5 octets)) \<subseteq> lower_hex)
   \<and> (\<forall>octets. Hex_stringify octets =
         concat (map (\<lambda>b. [ascii ''0123456789abcdef'' ! (unat b div 16),
                            ascii ''0123456789abcdef'' ! (unat b mod 16)]) octets))
   \<and> map_sum id (Hex_stringify \<circ> md5) (Utf8_parse (ascii '''')) =
         Inr (ascii ''d41d8cd98f00b204e9800998ecf8427e'')
   \<and> map_sum id (Hex_stringify \<circ> md5) (Utf8_parse (ascii ''a'')) =
         Inr (ascii ''0cc175b9c0f1b6a831c399e269772661'')
   \<and> map_sum id (Hex_stringify \<circ> md5) (Utf8_parse (ascii ''abc'')) =
         Inr (ascii ''900150983cd24fb0d6963f7d28e17f72'')
   \<and> map_sum id (Hex_stringify \<circ> md5) (Utf8_parse (ascii ''message digest'')) =
         Inr (ascii ''f96b697d7cb7938d525a2f31aaf161d0'')
   \<and> map_sum id (Hex_stringify \<circ> md5) (Utf8_parse (ascii ''abcdefghijklmnopqrstuvwxyz'')) =
         Inr (ascii ''c3fcd3d76192e4007dfb496cca67e13b'')
   \<and> map_sum id (Hex_stringify \<circ> md5) (Utf8_parse (ascii ''ABCDEFGHIJKLMNOPQRSTUVWXYZabcdefghijklmnopqrstuvwxyz0123456789'')) =
         Inr (ascii ''d174ab98d277d9f5a5611c2c9f419d9f'')
   \<and> map_sum id (Hex_stringify \<circ> md5) (Utf8_parse (ascii ''12345678901234567890123456789012345678901234567890123456789012345678901234567890'')) =
         Inr (ascii ''57edf4a22be3c955ac49da2e2107b67a'')
   \<and> map_sum id (Hex_stringify \<circ> md5) (Utf8_parse (ascii ''aaaaaaaaaaaaaaaaaaaaaaaaaaaaaaaaaaaaaaaaaaaaaaaaaaaaaaaa'')) =
         Inr (ascii ''3b0c8ac703f828b04c6c197006d17218'')
   \<and> map_sum id (Hex_stringify \<circ> md5) (Utf8_parse ([0xe9, 0x4e2d, 0xd83d, 0xde00])) =
         Inr (ascii ''2870e8cce7d73a43d7837bd61ad86beb'')"
proof -
  have result: "\<forall>r. snd (wbiSign clock_ms params imgKey subKey) = Inr r \<longleftrightarrow>
       (\<exists>query octets.
          wbi_query (fst (wbiSign clock_ms params imgKey subKey)) = Inr query
          \<and> Utf8_parse (query @ wbi_salt imgKey subKey) = Inr octets
          \<and> r = query @ ascii ''&w_rid='' @ Hex_stringify (md5 octets))"
    unfolding wbiSign_result [of clock_ms params imgKey subKey]
    by (auto split: sum.splits)
  have hex32: "\<forall>octets. length (Hex_stringify (md5 octets)) = 32
         \<and> set (Hex_stringify (md5 octets)) \<subseteq> lower_hex"
    by (simp add: Hex_stringify_length md5_length Hex_stringify_lower_hex)
  have digits: "\<forall>octets. Hex_stringify octets =
         concat (map (\<lambda>b. [ascii ''0123456789abcdef'' ! (unat b div 16),
                            ascii ''0123456789abcdef'' ! (unat b mod 16)]) octets)"
    by (rule allI) (rule Hex_stringify_digits)
  show ?thesis
    by (intro conjI)
       (fact result hex32 digits md5_hex_empty md5_hex_a md5_hex_abc md5_hex_message_digest md5_hex_alphabet md5_hex_alphanumeric md5_hex_digits md5_hex_fifty_six md5_hex_unicode)+
qed

theorem wbiSign_appends_w_rid_witness:
  "snd (wbiSign 1702204169000
      [(ascii ''foo'', JString (ascii ''114'')), (ascii ''bar'', JString (ascii ''514'')),
       (ascii ''baz'', JNumber (SafeInteger False 1919810))]
      (ascii ''7cd084941338484aae1ad9425b84077c'')
      (ascii ''4932caff0ff746eaa6f01bf08b70ac45''))
   = Inr (ascii ''bar=514&baz=1919810&foo=114&wts=1702204169&w_rid=6149fdadf571698ca7e6a567265cd0ee'')
   \<and> length (ascii ''6149fdadf571698ca7e6a567265cd0ee'') = 32"
proof -
  have q: "wbi_query (fst (wbiSign 1702204169000
      [(ascii ''foo'', JString (ascii ''114'')), (ascii ''bar'', JString (ascii ''514'')),
       (ascii ''baz'', JNumber (SafeInteger False 1919810))]
      (ascii ''7cd084941338484aae1ad9425b84077c'')
      (ascii ''4932caff0ff746eaa6f01bf08b70ac45'')))
    = Inr (ascii ''bar=514&baz=1919810&foo=114&wts=1702204169'')"
    by (simp add: wbi_eval)
  have s: "wbi_salt (ascii ''7cd084941338484aae1ad9425b84077c'')
      (ascii ''4932caff0ff746eaa6f01bf08b70ac45'') = ascii ''ea1db124af3c7062474693fa704f4ff8''"
    by (simp add: wbi_salt_filter salt_table_def ascii_def)
  have u: "Utf8_parse (ascii ''bar=514&baz=1919810&foo=114&wts=1702204169''
      @ ascii ''ea1db124af3c7062474693fa704f4ff8'') =
      Inr [0x62, 0x61, 0x72, 0x3d, 0x35, 0x31, 0x34, 0x26, 0x62, 0x61, 0x7a, 0x3d,
           0x31, 0x39, 0x31, 0x39, 0x38, 0x31, 0x30, 0x26, 0x66, 0x6f, 0x6f, 0x3d,
           0x31, 0x31, 0x34, 0x26, 0x77, 0x74, 0x73, 0x3d, 0x31, 0x37, 0x30, 0x32,
           0x32, 0x30, 0x34, 0x31, 0x36, 0x39, 0x65, 0x61, 0x31, 0x64, 0x62, 0x31,
           0x32, 0x34, 0x61, 0x66, 0x33, 0x63, 0x37, 0x30, 0x36, 0x32, 0x34, 0x37,
           0x34, 0x36, 0x39, 0x33, 0x66, 0x61, 0x37, 0x30, 0x34, 0x66, 0x34, 0x66,
           0x66, 0x38]"
    by (simp add: ascii_def is_low_surrogate_def is_high_surrogate_def utf8_octets_def)
  have h: "Hex_stringify [0x61, 0x49, 0xfd, 0xad, 0xf5, 0x71, 0x69, 0x8c, 0xa7, 0xe6, 0xa5, 0x67,
                       0x26, 0x5c, 0xd0, 0xee]
      = ascii ''6149fdadf571698ca7e6a567265cd0ee''"
    by (simp add: Hex_stringify_digits ascii_def)
  have u': "Utf8_parse (ascii ''bar=514&baz=1919810&foo=114&wts=1702204169''
      @ wbi_salt (ascii ''7cd084941338484aae1ad9425b84077c'')
          (ascii ''4932caff0ff746eaa6f01bf08b70ac45'')) =
      Inr [0x62, 0x61, 0x72, 0x3d, 0x35, 0x31, 0x34, 0x26, 0x62, 0x61, 0x7a, 0x3d,
           0x31, 0x39, 0x31, 0x39, 0x38, 0x31, 0x30, 0x26, 0x66, 0x6f, 0x6f, 0x3d,
           0x31, 0x31, 0x34, 0x26, 0x77, 0x74, 0x73, 0x3d, 0x31, 0x37, 0x30, 0x32,
           0x32, 0x30, 0x34, 0x31, 0x36, 0x39, 0x65, 0x61, 0x31, 0x64, 0x62, 0x31,
           0x32, 0x34, 0x61, 0x66, 0x33, 0x63, 0x37, 0x30, 0x36, 0x32, 0x34, 0x37,
           0x34, 0x36, 0x39, 0x33, 0x66, 0x61, 0x37, 0x30, 0x34, 0x66, 0x34, 0x66,
           0x66, 0x38]"
    by (simp only: s u)
  have r: "ascii ''bar=514&baz=1919810&foo=114&wts=1702204169&w_rid=6149fdadf571698ca7e6a567265cd0ee''
      = ascii ''bar=514&baz=1919810&foo=114&wts=1702204169'' @ ascii ''&w_rid='' @
        Hex_stringify (md5
          [0x62, 0x61, 0x72, 0x3d, 0x35, 0x31, 0x34, 0x26, 0x62, 0x61, 0x7a, 0x3d,
           0x31, 0x39, 0x31, 0x39, 0x38, 0x31, 0x30, 0x26, 0x66, 0x6f, 0x6f, 0x3d,
           0x31, 0x31, 0x34, 0x26, 0x77, 0x74, 0x73, 0x3d, 0x31, 0x37, 0x30, 0x32,
           0x32, 0x30, 0x34, 0x31, 0x36, 0x39, 0x65, 0x61, 0x31, 0x64, 0x62, 0x31,
           0x32, 0x34, 0x61, 0x66, 0x33, 0x63, 0x37, 0x30, 0x36, 0x32, 0x34, 0x37,
           0x34, 0x36, 0x39, 0x33, 0x66, 0x61, 0x37, 0x30, 0x34, 0x66, 0x34, 0x66,
           0x66, 0x38])"
    by (simp only: md5_digest_example h) (simp add: ascii_def)
  have "snd (wbiSign 1702204169000
      [(ascii ''foo'', JString (ascii ''114'')), (ascii ''bar'', JString (ascii ''514'')),
       (ascii ''baz'', JNumber (SafeInteger False 1919810))]
      (ascii ''7cd084941338484aae1ad9425b84077c'')
      (ascii ''4932caff0ff746eaa6f01bf08b70ac45''))
    = Inr (ascii ''bar=514&baz=1919810&foo=114&wts=1702204169&w_rid=6149fdadf571698ca7e6a567265cd0ee'')"
    by (rule wbiSign_appends_w_rid [THEN conjunct1, THEN spec, THEN iffD2])
       (intro exI conjI, rule q, rule u', rule r)
  moreover have "length (ascii ''6149fdadf571698ca7e6a567265cd0ee'') = 32"
    by (simp add: ascii_def)
  ultimately show ?thesis
    by (rule conjI)
qed

end
